theory Spec2Isabelle
  imports Main "HOL-Library.AList"
begin

section \<open>Values of the migrator\<close>

text \<open>
  The program handles decoded JSON (and YAML) documents as Python values: \<open>None\<close>,
  booleans, integers, strings, lists and dictionaries with string keys. A dictionary is an
  association list in insertion order; \<open>map_of\<close> reads it and \<open>AList.update\<close> stores
  into it the way a Python \<open>dict\<close> assignment does (in place for a key that exists, at the
  end for a new one). Numbers are integers; the program never computes with a number it
  receives.
\<close>

datatype json =
    JNull
  | JBool bool
  | JInt int
  | JStr string
  | JArr "json list"
  | JObj "(string \<times> json) list"

type_synonym dict = "(string \<times> json) list"

text \<open>Python's truth value of an object, as \<open>if data:\<close> and \<open>if not data:\<close> test it.\<close>

fun truthy :: "json \<Rightarrow> bool" where
  "truthy JNull = False"
| "truthy (JBool b) = b"
| "truthy (JInt n) = (n \<noteq> 0)"
| "truthy (JStr s) = (s \<noteq> [])"
| "truthy (JArr xs) = (xs \<noteq> [])"
| "truthy (JObj kvs) = (kvs \<noteq> [])"

text \<open>
  The exceptions the program can raise. \<open>MissingSection\<close> and \<open>MissingField\<close> are the two
  \<open>KeyError\<close>s that \<open>validate_config\<close> raises itself, with the names their messages
  carry; \<open>KeyError\<close> is the one a failed subscript raises.
\<close>

datatype error =
    MissingSection string
  | MissingField string string
  | KeyError string
  | TypeError
  | AttributeError

definition ebind :: "error + 'a \<Rightarrow> ('a \<Rightarrow> error + 'b) \<Rightarrow> error + 'b" where
  "ebind m f = (case m of Inl e \<Rightarrow> Inl e | Inr x \<Rightarrow> f x)"

text \<open>\<open>x[k]\<close> for a string key: only a dictionary can be subscripted by a string.\<close>

fun py_getitem :: "json \<Rightarrow> string \<Rightarrow> error + json" where
  "py_getitem (JObj kvs) k =
     (case map_of kvs k of None \<Rightarrow> Inl (KeyError k) | Some v \<Rightarrow> Inr v)"
| "py_getitem _ k = Inl TypeError"

text \<open>\<open>x.get(k, d)\<close>: only a dictionary has the method.\<close>

fun py_get :: "json \<Rightarrow> string \<Rightarrow> json \<Rightarrow> error + json" where
  "py_get (JObj kvs) k d = (case map_of kvs k of None \<Rightarrow> Inr d | Some v \<Rightarrow> Inr v)"
| "py_get _ k d = Inl AttributeError"

fun is_substring :: "string \<Rightarrow> string \<Rightarrow> bool" where
  "is_substring xs [] = (xs = [])"
| "is_substring xs (y # ys) = (take (length xs) (y # ys) = xs \<or> is_substring xs ys)"

text \<open>
  \<open>k in x\<close> for a string \<open>k\<close>: key membership in a dictionary, element membership in a
  list, substring test in a string, \<open>TypeError\<close> on anything else.
\<close>

fun py_in :: "string \<Rightarrow> json \<Rightarrow> error + bool" where
  "py_in k (JObj kvs) = Inr (map_of kvs k \<noteq> None)"
| "py_in k (JArr xs) = Inr (JStr k \<in> set xs)"
| "py_in k (JStr s) = Inr (is_substring k s)"
| "py_in k _ = Inl TypeError"

text \<open>
  The elements a \<open>for\<close> loop, a comprehension or \<open>list.extend\<close> draws from a value: the
  items of a list, the keys of a dictionary, the characters of a string.
\<close>

fun py_iter :: "json \<Rightarrow> error + json list" where
  "py_iter (JArr xs) = Inr xs"
| "py_iter (JObj kvs) = Inr (map (\<lambda>kv. JStr (fst kv)) kvs)"
| "py_iter (JStr s) = Inr (map (\<lambda>c. JStr [c]) s)"
| "py_iter _ = Inl TypeError"

text \<open>
  \<open>n.lower()\<close>: only a string has the method. \<open>str.lower\<close> folds every cased letter of
  Unicode by tables of the Python library, which are not part of the program; the function
  is the parameter \<open>lower\<close> of everything that calls it, and nothing below assumes anything
  about it.
\<close>

fun py_lower :: "(string \<Rightarrow> string) \<Rightarrow> json \<Rightarrow> error + string" where
  "py_lower lower (JStr s) = Inr (lower s)"
| "py_lower lower _ = Inl AttributeError"

section \<open>Endpoints and requests\<close>

text \<open>
  A formatted string is kept as its pieces: a literal, or a value that an f-string
  formats with \<open>str\<close>.
\<close>

datatype piece = Lit string | Fmt json

type_synonym fstring = "piece list"

text \<open>
  The keys of the \<open>ENDPOINTS\<close> table. Every call of \<open>get_endpoint\<close> in the program passes
  one of the three literals.
\<close>

datatype endpoint = Connections | Templates | Audiences

fun ENDPOINTS :: "endpoint \<Rightarrow> string" where
  "ENDPOINTS Connections = ''beta/audience/connection''"
| "ENDPOINTS Templates = ''beta/template''"
| "ENDPOINTS Audiences = ''beta/audience/query''"

definition get_endpoint :: "json \<Rightarrow> endpoint \<Rightarrow> fstring" where
  "get_endpoint base_url key = [Fmt base_url, Lit (ENDPOINTS key)]"

datatype http_method = GET | POST

record request =
  req_method :: http_method
  req_url :: fstring
  req_headers :: dict
  req_json :: json
  req_params :: "dict option"

text \<open>
  What \<open>requests.request\<close>, \<open>raise_for_status\<close> and \<open>response.json\<close> do with one request:
  raise a \<open>RequestException\<close> (with its message), raise a \<open>ValueError\<close>, or deliver the
  decoded body.
\<close>

datatype outcome = RequestException string | ValueError | Decoded json

text \<open>One constructor for each \<open>print\<close> of the program, with the values it formats.\<close>

datatype notice =
    HttpErrorNotice string
  | NotDecodedNotice
  | ConnectionCreated string
  | ConnectionFailed string
  | TemplateCreated
  | TemplateFailed
  | FetchingAudiencesFromSource
  | AudienceCreated json
  | AudienceFailed json json
  | FetchingTemplates
  | MigratingTemplate json
  | FetchingAudiences
  | MigratingAudience json
  | FetchingConnections

text \<open>
  The program is sequential and waits for every response, so a run is determined by the
  outcomes its successive requests meet. The world carries that sequence
  (\<open>responses w k\<close> is the outcome of the request number \<open>k\<close> of the run, counted from 0),
  the exchanges made so far and the lines printed so far.
\<close>

record world =
  responses :: "nat \<Rightarrow> outcome"
  exchanges :: "(request \<times> outcome) list"
  printed :: "notice list"

definition print :: "notice \<Rightarrow> world \<Rightarrow> world" where
  "print n w = w\<lparr>printed := printed w @ [n]\<rparr>"

definition send_request ::
  "http_method \<Rightarrow> fstring \<Rightarrow> dict \<Rightarrow> json \<Rightarrow> dict option \<Rightarrow> world \<Rightarrow> json \<times> world" where
  "send_request m u h j p w =
     (let req = \<lparr>req_method = m, req_url = u, req_headers = h, req_json = j,
                  req_params = p\<rparr>;
          out = responses w (length (exchanges w));
          w1 = w\<lparr>exchanges := exchanges w @ [(req, out)]\<rparr>
      in case out of
           RequestException e \<Rightarrow> (JNull, print (HttpErrorNotice e) w1)
         | ValueError \<Rightarrow> (JNull, print NotDecodedNotice w1)
         | Decoded d \<Rightarrow> (d, w1))"

definition prepare_headers :: "json \<Rightarrow> string \<Rightarrow> error + dict" where
  "prepare_headers config key =
     ebind (py_get config key (JObj [])) (\<lambda>section.
     ebind (py_get section ''ApiKey'' JNull) (\<lambda>api_key.
     ebind (py_get section ''CustomerId'' JNull) (\<lambda>customer_id.
       Inr [(''ApiKey'', api_key), (''CustomerId'', customer_id),
            (''Content-Type'', JStr ''application/json'')])))"

section \<open>Configuration validation\<close>

definition required_sections :: "string list" where
  "required_sections = [''source'', ''destination'']"

definition required_fields :: "(string \<times> string list) list" where
  "required_fields =
     [(''source'', [''url'', ''ApiKey'', ''CustomerId'']),
      (''destination'', [''url'', ''ApiKey'', ''CustomerId''])]"

fun check_fields :: "json \<Rightarrow> string \<Rightarrow> string list \<Rightarrow> error + unit" where
  "check_fields config section [] = Inr ()"
| "check_fields config section (field # rest) =
     ebind (py_getitem config section) (\<lambda>sec.
     ebind (py_in field sec) (\<lambda>present.
       if \<not> present then Inl (MissingField field section)
       else check_fields config section rest))"

fun check_sections :: "json \<Rightarrow> string list \<Rightarrow> error + unit" where
  "check_sections config [] = Inr ()"
| "check_sections config (section # sections) =
     ebind (py_in section config) (\<lambda>present.
       if \<not> present then Inl (MissingSection section)
       else (case map_of required_fields section of
               None \<Rightarrow> Inl (KeyError section)
             | Some fs \<Rightarrow>
                 ebind (check_fields config section fs) (\<lambda>_.
                   check_sections config sections)))"

definition validate_config :: "json \<Rightarrow> error + unit" where
  "validate_config config = check_sections config required_sections"

section \<open>The paginator\<close>

text \<open>
  \<open>params\<close> is \<open>None\<close> or a dictionary. \<open>page\<close> starts at 1 and the request carries
  \<open>page - 1\<close>. The \<open>while True\<close> loop has no bound of its own: it ends when a response is
  falsy or a page is marked last, so the loop is a partial function and a run that never
  ends has the value \<open>None\<close>.
\<close>

definition params_truthy :: "dict option \<Rightarrow> bool" where
  "params_truthy params = (case params of None \<Rightarrow> False | Some ps \<Rightarrow> ps \<noteq> [])"

definition page_size :: "dict option \<Rightarrow> json" where
  "page_size params =
     (case params of
        None \<Rightarrow> JInt 100
      | Some ps \<Rightarrow>
          if params_truthy params
          then (case map_of ps ''size'' of None \<Rightarrow> JInt 100 | Some v \<Rightarrow> v)
          else JInt 100)"

definition current_params :: "dict option \<Rightarrow> int \<Rightarrow> json \<Rightarrow> dict" where
  "current_params params page sz =
     (let cur = [(''page'', JInt (page - 1)), (''size'', sz)]
      in case params of
           None \<Rightarrow> cur
         | Some ps \<Rightarrow>
             if params_truthy params
             then fold (\<lambda>kv. AList.update (fst kv) (snd kv)) ps cur
             else cur)"

partial_function (option) fetch_loop ::
  "fstring \<Rightarrow> dict \<Rightarrow> json \<Rightarrow> dict option \<Rightarrow> int \<Rightarrow> json list \<Rightarrow> world
     \<Rightarrow> ((error + json list) \<times> world) option" where
  "fetch_loop u h sz params page all_content w =
     (case send_request GET u h JNull (Some (current_params params page sz)) w of
        (data, w1) \<Rightarrow>
          if \<not> truthy data then Some (Inr all_content, w1)
          else (case ebind (py_get data ''content'' (JArr [])) py_iter of
                  Inl e \<Rightarrow> Some (Inl e, w1)
                | Inr items \<Rightarrow>
                    (case py_get data ''last'' (JBool False) of
                       Inl e \<Rightarrow> Some (Inl e, w1)
                     | Inr l \<Rightarrow>
                         if truthy l then Some (Inr (all_content @ items), w1)
                         else fetch_loop u h sz params (page + 1)
                                (all_content @ items) w1)))"

definition fetch_paginated_data ::
  "json \<Rightarrow> endpoint \<Rightarrow> dict option \<Rightarrow> world \<Rightarrow> ((error + json list) \<times> world) option" where
  "fetch_paginated_data config endpoint params w =
     (case ebind (py_getitem config ''source'') (\<lambda>src. py_getitem src ''url'') of
        Inl e \<Rightarrow> Some (Inl e, w)
      | Inr base \<Rightarrow>
          (case prepare_headers config ''source'' of
             Inl e \<Rightarrow> Some (Inl e, w)
           | Inr h \<Rightarrow>
               fetch_loop (get_endpoint base endpoint) h (page_size params) params 1 [] w))"

section \<open>The reconciler\<close>

text \<open>The comprehension \<open>{db["name"].lower(): db for db in dbs}\<close>, filled from left to right.\<close>

fun name_map :: "(string \<Rightarrow> string) \<Rightarrow> json list \<Rightarrow> dict \<Rightarrow> error + dict" where
  "name_map lower [] acc = Inr acc"
| "name_map lower (db # dbs) acc =
     ebind (py_getitem db ''name'') (\<lambda>n.
     ebind (py_lower lower n) (\<lambda>k.
       name_map lower dbs (AList.update k db acc)))"

text \<open>
  \<open>source_map.keys() & config_map.keys()\<close> is a Python set. Its members are the keys of
  \<open>source_map\<close> that are keys of \<open>config_map\<close>; the order in which the \<open>for\<close> loop
  meets them follows the hashes of the strings, which differ from run to run, and is the
  parameter \<open>set_order\<close> of \<open>sync_connections\<close>.
\<close>

definition common_names :: "dict \<Rightarrow> dict \<Rightarrow> string list" where
  "common_names source_map config_map =
     filter (\<lambda>k. map_of config_map k \<noteq> None) (map fst source_map)"

text \<open>The dictionary display \<open>{**source_db, "password": ..., "port": ..., "host": ..., "user": ...}\<close>.\<close>

definition merge_payload :: "json \<Rightarrow> json \<Rightarrow> error + dict" where
  "merge_payload source_db config_db =
     (case source_db of
        JObj kvs \<Rightarrow>
          ebind (py_get config_db ''password'' JNull) (\<lambda>password.
          ebind (py_get config_db ''port'' JNull) (\<lambda>port.
          ebind (py_get config_db ''host'' JNull) (\<lambda>host.
          ebind (py_get config_db ''user'' JNull) (\<lambda>user.
            Inr (AList.update ''user'' user
                  (AList.update ''host'' host
                    (AList.update ''port'' port
                      (AList.update ''password'' password kvs))))))))
      | _ \<Rightarrow> Inl TypeError)"

fun sync_loop ::
  "dict \<Rightarrow> dict \<Rightarrow> dict \<Rightarrow> fstring \<Rightarrow> string list \<Rightarrow> world \<Rightarrow> (error + unit) \<times> world" where
  "sync_loop source_map config_map h api_url [] w = (Inr (), w)"
| "sync_loop source_map config_map h api_url (name # names) w =
     (case map_of source_map name of
        None \<Rightarrow> (Inl (KeyError name), w)
      | Some source_db \<Rightarrow>
          (case map_of config_map name of
             None \<Rightarrow> (Inl (KeyError name), w)
           | Some config_db \<Rightarrow>
               (case merge_payload source_db config_db of
                  Inl e \<Rightarrow> (Inl e, w)
                | Inr payload \<Rightarrow>
                    (case send_request POST api_url h (JObj payload) None w of
                       (response, w1) \<Rightarrow>
                         sync_loop source_map config_map h api_url names
                           (print (if truthy response then ConnectionCreated name
                                   else ConnectionFailed name) w1)))))"

definition sync_connections ::
  "(string list \<Rightarrow> string list) \<Rightarrow> (string \<Rightarrow> string) \<Rightarrow> json list \<Rightarrow> json \<Rightarrow> world
     \<Rightarrow> (error + unit) \<times> world" where
  "sync_connections set_order lower db_payload config w =
     (case py_get config ''databases'' (JArr []) of
        Inl e \<Rightarrow> (Inl e, w)
      | Inr config_databases \<Rightarrow>
     (case name_map lower db_payload [] of
        Inl e \<Rightarrow> (Inl e, w)
      | Inr source_map \<Rightarrow>
     (case ebind (py_iter config_databases) (\<lambda>dbs. name_map lower dbs []) of
        Inl e \<Rightarrow> (Inl e, w)
      | Inr config_map \<Rightarrow>
     (case prepare_headers config ''destination'' of
        Inl e \<Rightarrow> (Inl e, w)
      | Inr h \<Rightarrow>
     (case ebind (py_getitem config ''destination'') (\<lambda>dst. py_getitem dst ''url'') of
        Inl e \<Rightarrow> (Inl e, w)
      | Inr base \<Rightarrow>
          sync_loop source_map config_map h (get_endpoint base Connections)
            (set_order (common_names source_map config_map)) w)))))"

section \<open>Record fetcher and creators\<close>

definition fetch_content :: "json \<Rightarrow> json \<Rightarrow> world \<Rightarrow> (error + json) \<times> world" where
  "fetch_content config template_id w =
     (case ebind (py_getitem config ''source'') (\<lambda>src. py_getitem src ''url'') of
        Inl e \<Rightarrow> (Inl e, w)
      | Inr base \<Rightarrow>
          (case prepare_headers config ''source'' of
             Inl e \<Rightarrow> (Inl e, w)
           | Inr h \<Rightarrow>
               (case send_request GET (get_endpoint base Templates @ [Lit ''/'', Fmt template_id])
                       h JNull None w of
                  (response, w1) \<Rightarrow> (Inr response, w1))))"

definition create_template :: "json \<Rightarrow> json \<Rightarrow> world \<Rightarrow> (error + json) \<times> world" where
  "create_template config template_data w =
     (case ebind (py_getitem config ''destination'') (\<lambda>dst. py_getitem dst ''url'') of
        Inl e \<Rightarrow> (Inl e, w)
      | Inr base \<Rightarrow>
          (case prepare_headers config ''destination'' of
             Inl e \<Rightarrow> (Inl e, w)
           | Inr h \<Rightarrow>
               (case send_request POST (get_endpoint base Templates) h template_data None w of
                  (response, w1) \<Rightarrow>
                    if truthy response then (Inr response, print TemplateCreated w1)
                    else (Inr JNull, print TemplateFailed w1))))"

definition fetch_audiences :: "json \<Rightarrow> world \<Rightarrow> ((error + json list) \<times> world) option" where
  "fetch_audiences config w =
     fetch_paginated_data config Audiences None (print FetchingAudiencesFromSource w)"

definition create_audience :: "json \<Rightarrow> json \<Rightarrow> world \<Rightarrow> (error + json) \<times> world" where
  "create_audience config audience_data w =
     (case ebind (py_getitem config ''destination'') (\<lambda>dst. py_getitem dst ''url'') of
        Inl e \<Rightarrow> (Inl e, w)
      | Inr base \<Rightarrow>
          (case prepare_headers config ''destination'' of
             Inl e \<Rightarrow> (Inl e, w)
           | Inr h \<Rightarrow>
               (case send_request POST (get_endpoint base Audiences) h audience_data None w of
                  (response, w1) \<Rightarrow>
                    (case py_getitem audience_data ''name'' of
                       Inl e \<Rightarrow> (Inl e, w1)
                     | Inr n \<Rightarrow>
                         if truthy response then (Inr response, print (AudienceCreated n) w1)
                         else (Inr JNull, print (AudienceFailed n response) w1)))))"

section \<open>The migration driver\<close>

text \<open>
  \<open>main\<close> is modelled from the configuration that \<open>load_config\<close> returned; reading the
  command line and the file is outside the model. The three \<open>if\<close> blocks of \<open>main\<close> are
  \<open>main_templates\<close>, \<open>main_audiences\<close> and \<open>main_databases\<close>, and the two \<open>for\<close> loops
  written in \<open>main\<close> are \<open>main_templates_loop\<close> and \<open>main_audiences_loop\<close>. An exception
  ends the run where it is raised. The parameters \<open>set_order\<close> and \<open>lower\<close> are those of
  \<open>sync_connections\<close>: the iteration order of a Python set and \<open>str.lower\<close>.
\<close>

fun main_templates_loop :: "json \<Rightarrow> json list \<Rightarrow> world \<Rightarrow> (error + unit) \<times> world" where
  "main_templates_loop config [] w = (Inr (), w)"
| "main_templates_loop config (template # templates) w =
     (case py_getitem template ''id'' of
        Inl e \<Rightarrow> (Inl e, w)
      | Inr template_id \<Rightarrow>
          (case fetch_content config template_id (print (MigratingTemplate template_id) w) of
             (Inl e, w1) \<Rightarrow> (Inl e, w1)
           | (Inr template_data, w1) \<Rightarrow>
               if truthy template_data
               then (case create_template config template_data w1 of
                       (Inl e, w2) \<Rightarrow> (Inl e, w2)
                     | (Inr _, w2) \<Rightarrow> main_templates_loop config templates w2)
               else main_templates_loop config templates w1))"

fun main_audiences_loop :: "json \<Rightarrow> json list \<Rightarrow> world \<Rightarrow> (error + unit) \<times> world" where
  "main_audiences_loop config [] w = (Inr (), w)"
| "main_audiences_loop config (audience # audiences) w =
     (case py_getitem audience ''name'' of
        Inl e \<Rightarrow> (Inl e, w)
      | Inr n \<Rightarrow>
          (case create_audience config audience (print (MigratingAudience n) w) of
             (Inl e, w1) \<Rightarrow> (Inl e, w1)
           | (Inr _, w1) \<Rightarrow> main_audiences_loop config audiences w1))"

definition main_templates :: "json \<Rightarrow> json \<Rightarrow> world \<Rightarrow> ((error + unit) \<times> world) option" where
  "main_templates config migrate_config w =
     (case py_get migrate_config ''templates'' (JBool False) of
        Inl e \<Rightarrow> Some (Inl e, w)
      | Inr flag \<Rightarrow>
          if truthy flag
          then (case fetch_paginated_data config Templates None (print FetchingTemplates w) of
                  None \<Rightarrow> None
                | Some (Inl e, w1) \<Rightarrow> Some (Inl e, w1)
                | Some (Inr templates, w1) \<Rightarrow> Some (main_templates_loop config templates w1))
          else Some (Inr (), w))"

definition main_audiences :: "json \<Rightarrow> json \<Rightarrow> world \<Rightarrow> ((error + unit) \<times> world) option" where
  "main_audiences config migrate_config w =
     (case py_get migrate_config ''audiences'' (JBool False) of
        Inl e \<Rightarrow> Some (Inl e, w)
      | Inr flag \<Rightarrow>
          if truthy flag
          then (case fetch_audiences config (print FetchingAudiences w) of
                  None \<Rightarrow> None
                | Some (Inl e, w1) \<Rightarrow> Some (Inl e, w1)
                | Some (Inr audiences, w1) \<Rightarrow> Some (main_audiences_loop config audiences w1))
          else Some (Inr (), w))"

definition main_databases ::
  "(string list \<Rightarrow> string list) \<Rightarrow> (string \<Rightarrow> string) \<Rightarrow> json \<Rightarrow> json \<Rightarrow> world
     \<Rightarrow> ((error + unit) \<times> world) option" where
  "main_databases set_order lower config migrate_config w =
     (case py_get migrate_config ''databases'' (JBool False) of
        Inl e \<Rightarrow> Some (Inl e, w)
      | Inr flag \<Rightarrow>
          if truthy flag
          then (case fetch_paginated_data config Connections None (print FetchingConnections w) of
                  None \<Rightarrow> None
                | Some (Inl e, w1) \<Rightarrow> Some (Inl e, w1)
                | Some (Inr connections, w1) \<Rightarrow>
                    Some (sync_connections set_order lower connections config w1))
          else Some (Inr (), w))"

definition main ::
  "(string list \<Rightarrow> string list) \<Rightarrow> (string \<Rightarrow> string) \<Rightarrow> json \<Rightarrow> world
     \<Rightarrow> ((error + unit) \<times> world) option" where
  "main set_order lower config w =
     (case validate_config config of
        Inl e \<Rightarrow> Some (Inl e, w)
      | Inr _ \<Rightarrow>
     (case py_get config ''migrating'' (JObj []) of
        Inl e \<Rightarrow> Some (Inl e, w)
      | Inr migrate_config \<Rightarrow>
     (case main_templates config migrate_config w of
        None \<Rightarrow> None
      | Some (Inl e, w1) \<Rightarrow> Some (Inl e, w1)
      | Some (Inr _, w1) \<Rightarrow>
     (case main_audiences config migrate_config w1 of
        None \<Rightarrow> None
      | Some (Inl e, w2) \<Rightarrow> Some (Inl e, w2)
      | Some (Inr _, w2) \<Rightarrow> main_databases set_order lower config migrate_config w2))))"

section \<open>Notions of the statements\<close>

text \<open>What \<open>send_request\<close> returns for an outcome, and what it prints for it.\<close>

fun returned :: "outcome \<Rightarrow> json" where
  "returned (RequestException e) = JNull"
| "returned ValueError = JNull"
| "returned (Decoded d) = d"

fun transport_notices :: "outcome \<Rightarrow> notice list" where
  "transport_notices (RequestException e) = [HttpErrorNotice e]"
| "transport_notices ValueError = [NotDecodedNotice]"
| "transport_notices (Decoded d) = []"

text \<open>
  A listing page is a non-empty object whose \<open>content\<close>, when present, is an array; its
  records are that array and it is the last page when its \<open>last\<close> field is truthy.
\<close>

fun is_page :: "json \<Rightarrow> bool" where
  "is_page (JObj kvs) =
     (kvs \<noteq> [] \<and>
      (case map_of kvs ''content'' of None \<Rightarrow> True | Some (JArr xs) \<Rightarrow> True | Some _ \<Rightarrow> False))"
| "is_page _ = False"

fun page_content :: "json \<Rightarrow> json list" where
  "page_content (JObj kvs) = (case map_of kvs ''content'' of Some (JArr xs) \<Rightarrow> xs | _ \<Rightarrow> [])"
| "page_content _ = []"

fun page_last :: "json \<Rightarrow> bool" where
  "page_last (JObj kvs) = (case map_of kvs ''last'' of None \<Rightarrow> False | Some l \<Rightarrow> truthy l)"
| "page_last _ = False"

text \<open>A response that the paginator takes for the end of the data: an error or a falsy body.\<close>

definition unusable :: "outcome \<Rightarrow> bool" where
  "unusable out = (\<not> truthy (returned out))"

text \<open>The listing request for the 0-based page index \<open>i\<close>, and the index a request asks for.\<close>

definition page_request :: "fstring \<Rightarrow> dict \<Rightarrow> json \<Rightarrow> dict option \<Rightarrow> int \<Rightarrow> request" where
  "page_request u h sz params i =
     \<lparr>req_method = GET, req_url = u, req_headers = h, req_json = JNull,
      req_params = Some (current_params params (i + 1) sz)\<rparr>"

definition requested_page :: "request \<Rightarrow> json option" where
  "requested_page r = (case req_params r of None \<Rightarrow> None | Some ps \<Rightarrow> map_of ps ''page'')"

definition page_not_redefined :: "dict option \<Rightarrow> bool" where
  "page_not_redefined params =
     (case params of None \<Rightarrow> True | Some ps \<Rightarrow> map_of ps ''page'' = None)"

definition field_or_null :: "dict \<Rightarrow> string \<Rightarrow> json" where
  "field_or_null sec k = (case map_of sec k of None \<Rightarrow> JNull | Some v \<Rightarrow> v)"

text \<open>
  A transport that delivers the listed outcomes to the first requests of a run and refuses
  every later one, and the world of a run that starts on it.
\<close>

definition script :: "outcome list \<Rightarrow> nat \<Rightarrow> outcome" where
  "script outs k = (if k < length outs then outs ! k else RequestException ''refused'')"

definition new_world :: "outcome list \<Rightarrow> world" where
  "new_world outs = \<lparr>responses = script outs, exchanges = [], printed = []\<rparr>"

definition demo_source :: dict where
  "demo_source =
     [(''url'', JStr ''https://src/''), (''ApiKey'', JStr ''k1''), (''CustomerId'', JInt 7)]"

definition demo_destination :: dict where
  "demo_destination =
     [(''url'', JStr ''https://dst/''), (''ApiKey'', JStr ''k2''), (''CustomerId'', JInt 8)]"

definition demo_config :: "dict \<Rightarrow> json" where
  "demo_config extra =
     JObj ([(''source'', JObj demo_source), (''destination'', JObj demo_destination)] @ extra)"

definition demo_pages :: "json list" where
  "demo_pages =
     [JObj [(''content'', JArr [JStr ''a'', JStr ''b'']), (''last'', JBool False)],
      JObj [(''content'', JArr []), (''last'', JBool False)],
      JObj [(''content'', JArr [JStr ''c'']), (''last'', JBool True)]]"

text \<open>An empty page that is not marked last, then a last page.\<close>

definition empty_then_last :: "json list" where
  "empty_then_last =
     [JObj [(''content'', JArr []), (''last'', JBool False)],
      JObj [(''content'', JArr [JInt 5]), (''last'', JBool True)]]"

text \<open>
  The shape of a configuration: an object whose \<open>source\<close> and \<open>destination\<close> entries,
  when present, are objects. Such a configuration lacks something required when one of the
  two sections is absent or has no \<open>url\<close>, \<open>ApiKey\<close> or \<open>CustomerId\<close>.
\<close>

fun sections_are_objects :: "json \<Rightarrow> bool" where
  "sections_are_objects (JObj kvs) =
     (\<forall>s\<in>set [''source'', ''destination''].
        case map_of kvs s of None \<Rightarrow> True | Some (JObj sec) \<Rightarrow> True | Some _ \<Rightarrow> False)"
| "sections_are_objects _ = False"

fun lacks_required :: "json \<Rightarrow> bool" where
  "lacks_required (JObj kvs) =
     (\<exists>s\<in>set [''source'', ''destination''].
        case map_of kvs s of
          None \<Rightarrow> True
        | Some (JObj sec) \<Rightarrow> \<exists>f\<in>set [''url'', ''ApiKey'', ''CustomerId'']. map_of sec f = None
        | Some _ \<Rightarrow> False)"
| "lacks_required _ = False"

fun is_configuration_error :: "error \<Rightarrow> bool" where
  "is_configuration_error (MissingSection s) = True"
| "is_configuration_error (MissingField f s) = True"
| "is_configuration_error _ = False"

text \<open>A configuration whose destination section has no \<open>ApiKey\<close>, with every flow switched on.\<close>

definition config_without_key :: json where
  "config_without_key =
     JObj [(''source'', JObj demo_source),
           (''destination'', JObj [(''url'', JStr ''https://dst/''), (''CustomerId'', JInt 8)]),
           (''migrating'', JObj [(''templates'', JBool True), (''audiences'', JBool True),
                                 (''databases'', JBool True)])]"

text \<open>
  The flag of a flow as \<open>main\<close> reads it, \<open>config.get("migrating", {}).get(flow, False)\<close>:
  on when it is there and truthy.
\<close>

definition flag_on :: "json \<Rightarrow> string \<Rightarrow> bool" where
  "flag_on config flow =
     (case py_get config ''migrating'' (JObj []) of
        Inl e \<Rightarrow> False
      | Inr migrate_config \<Rightarrow>
          (case py_get migrate_config flow (JBool False) of
             Inl e \<Rightarrow> False
           | Inr flag \<Rightarrow> truthy flag))"

text \<open>
  The entry of the \<open>ENDPOINTS\<close> table a request is addressed to: the literal that follows
  the base address in its URL.
\<close>

definition request_endpoint :: "request \<Rightarrow> string option" where
  "request_endpoint r =
     (case req_url r of base # Lit s # rest \<Rightarrow> Some s | _ \<Rightarrow> None)"

text \<open>\<open>ys\<close> extends \<open>xs\<close> by exchanges with the endpoint \<open>s\<close> only.\<close>

definition calls_only :: "string \<Rightarrow> (request \<times> outcome) list \<Rightarrow> (request \<times> outcome) list \<Rightarrow> bool" where
  "calls_only s xs ys =
     (\<exists>ex. ys = xs @ ex \<and> (\<forall>x\<in>set ex. request_endpoint (fst x) = Some s))"

text \<open>A configuration with every section required and the given migration flags.\<close>

definition flagged_config :: "dict \<Rightarrow> json" where
  "flagged_config flags = demo_config [(''migrating'', JObj flags)]"

text \<open>One page of one audience, then the response to its creation.\<close>

definition one_audience_run :: "outcome list" where
  "one_audience_run =
     [Decoded (JObj [(''content'', JArr [JObj [(''name'', JStr ''A'')]]), (''last'', JBool True)]),
      Decoded (JObj [(''id'', JInt 1)])]"

text \<open>
  A connection record is an object with a string \<open>name\<close>; its normalised name is what
  \<open>lower\<close> makes of that name. \<open>last_named lower n dbs\<close> is the last record of \<open>dbs\<close>, in
  input order, whose normalised name is \<open>n\<close>.
\<close>

fun named :: "json \<Rightarrow> bool" where
  "named (JObj kvs) = (case map_of kvs ''name'' of Some (JStr s) \<Rightarrow> True | _ \<Rightarrow> False)"
| "named _ = False"

fun norm_name :: "(string \<Rightarrow> string) \<Rightarrow> json \<Rightarrow> string" where
  "norm_name lower (JObj kvs) =
     (case map_of kvs ''name'' of Some (JStr s) \<Rightarrow> lower s | _ \<Rightarrow> [])"
| "norm_name lower _ = []"

definition last_named :: "(string \<Rightarrow> string) \<Rightarrow> string \<Rightarrow> json list \<Rightarrow> json option" where
  "last_named lower n dbs =
     (case filter (\<lambda>db. norm_name lower db = n) dbs of
        [] \<Rightarrow> None
      | x # xs \<Rightarrow> Some (last (x # xs)))"

text \<open>
  The lowering of the letters A to Z, which is what \<open>str.lower\<close> does on a string of ASCII
  characters. The examples have ASCII names and take it for \<open>lower\<close>.
\<close>

definition ascii_lower_char :: "char \<Rightarrow> char" where
  "ascii_lower_char c =
     (case map_of (zip ''ABCDEFGHIJKLMNOPQRSTUVWXYZ'' ''abcdefghijklmnopqrstuvwxyz'') c of
        None \<Rightarrow> c
      | Some d \<Rightarrow> d)"

definition ascii_lower :: "string \<Rightarrow> string" where
  "ascii_lower s = map ascii_lower_char s"

text \<open>The create request for a connection payload.\<close>

definition connection_request :: "fstring \<Rightarrow> dict \<Rightarrow> dict \<Rightarrow> request" where
  "connection_request u h payload =
     \<lparr>req_method = POST, req_url = u, req_headers = h, req_json = JObj payload,
      req_params = None\<rparr>"

text \<open>The payload that the loop of \<open>sync_connections\<close> builds for a name.\<close>

definition payload_for :: "dict \<Rightarrow> dict \<Rightarrow> string \<Rightarrow> dict" where
  "payload_for source_map config_map n =
     (case (map_of source_map n, map_of config_map n) of
        (Some s, Some c) \<Rightarrow> (case merge_payload s c of Inl e \<Rightarrow> [] | Inr p \<Rightarrow> p)
      | _ \<Rightarrow> [])"

text \<open>
  Source connections with two records named beta in different case, and local entries of
  which the one for beta has no password.
\<close>

definition demo_sources :: "json list" where
  "demo_sources =
     [JObj [(''name'', JStr ''Alpha''), (''type'', JStr ''pg'')],
      JObj [(''name'', JStr ''beta''), (''type'', JStr ''pg''), (''host'', JStr ''old'')],
      JObj [(''name'', JStr ''BETA''), (''type'', JStr ''mysql'')],
      JObj [(''name'', JStr ''Gamma''), (''type'', JStr ''pg'')]]"

definition demo_locals :: "json list" where
  "demo_locals =
     [JObj [(''name'', JStr ''Beta''), (''host'', JStr ''h1''), (''port'', JInt 5432),
            (''user'', JStr ''u1'')],
      JObj [(''name'', JStr ''gamma''), (''host'', JStr ''h2''), (''port'', JInt 3306),
            (''user'', JStr ''u2''), (''password'', JStr ''s2'')],
      JObj [(''name'', JStr ''Delta''), (''host'', JStr ''h3'')]]"

text \<open>The configuration with those local entries.\<close>

definition demo_sync_config :: json where
  "demo_sync_config = demo_config [(''databases'', JArr demo_locals)]"

text \<open>The local entry for beta: it has no \<open>password\<close>.\<close>

definition demo_beta_local :: dict where
  "demo_beta_local =
     [(''name'', JStr ''Beta''), (''host'', JStr ''h1''), (''port'', JInt 5432),
      (''user'', JStr ''u1'')]"

text \<open>
  A template record carries an \<open>id\<close> and an audience record a \<open>name\<close>; \<open>main\<close> reads them
  with a subscript.
\<close>

fun has_id :: "json \<Rightarrow> bool" where
  "has_id (JObj kvs) = (map_of kvs ''id'' \<noteq> None)"
| "has_id _ = False"

fun template_id :: "json \<Rightarrow> json" where
  "template_id (JObj kvs) = (case map_of kvs ''id'' of None \<Rightarrow> JNull | Some v \<Rightarrow> v)"
| "template_id _ = JNull"

fun has_name :: "json \<Rightarrow> bool" where
  "has_name (JObj kvs) = (map_of kvs ''name'' \<noteq> None)"
| "has_name _ = False"

fun audience_name :: "json \<Rightarrow> json" where
  "audience_name (JObj kvs) = (case map_of kvs ''name'' of None \<Rightarrow> JNull | Some v \<Rightarrow> v)"
| "audience_name _ = JNull"

text \<open>The address of the detail request for a template id.\<close>

definition detail_url :: "json \<Rightarrow> json \<Rightarrow> fstring" where
  "detail_url base tid = get_endpoint base Templates @ [Lit ''/'', Fmt tid]"

definition is_get :: "request \<times> outcome \<Rightarrow> bool" where
  "is_get x = (req_method (fst x) = GET)"

definition is_post :: "request \<times> outcome \<Rightarrow> bool" where
  "is_post x = (req_method (fst x) = POST)"

text \<open>The kinds of printed lines.\<close>

fun is_transport_notice :: "notice \<Rightarrow> bool" where
  "is_transport_notice (HttpErrorNotice e) = True"
| "is_transport_notice NotDecodedNotice = True"
| "is_transport_notice _ = False"

fun is_template_result :: "notice \<Rightarrow> bool" where
  "is_template_result TemplateCreated = True"
| "is_template_result TemplateFailed = True"
| "is_template_result _ = False"

fun is_migrating :: "notice \<Rightarrow> bool" where
  "is_migrating (MigratingTemplate i) = True"
| "is_migrating (MigratingAudience n) = True"
| "is_migrating _ = False"

text \<open>What the audiences loop prints for a record and the exchange of its creation.\<close>

definition audience_lines :: "json \<Rightarrow> request \<times> outcome \<Rightarrow> notice list" where
  "audience_lines a x =
     MigratingAudience (audience_name a) # transport_notices (snd x) @
     [if truthy (returned (snd x)) then AudienceCreated (audience_name a)
      else AudienceFailed (audience_name a) (returned (snd x))]"

text \<open>
  Three template records; the run in which the detail of the second one cannot be fetched
  and the creation of the third one is answered by an undecodable body.
\<close>

definition three_templates :: "json list" where
  "three_templates = [JObj [(''id'', JInt 1)], JObj [(''id'', JInt 2)], JObj [(''id'', JInt 3)]]"

definition three_templates_run :: "outcome list" where
  "three_templates_run =
     [Decoded (JObj [(''id'', JInt 1), (''body'', JStr ''one'')]),
      Decoded (JObj [(''id'', JInt 11)]),
      RequestException ''500'',
      Decoded (JObj [(''id'', JInt 3), (''body'', JStr ''three'')]),
      ValueError]"

text \<open>An audience record without a \<open>name\<close>, followed by a well-formed one.\<close>

definition nameless_then_named :: "json list" where
  "nameless_then_named = [JObj [(''label'', JStr ''x'')], JObj [(''name'', JStr ''B'')]]"

definition two_audiences :: "json list" where
  "two_audiences = [JObj [(''name'', JStr ''A'')], JObj [(''name'', JStr ''B'')]]"

section \<open>The paginator: properties\<close>

lemma send_request_eq:
  "send_request m u h j p w =
     (returned (responses w (length (exchanges w))),
      w\<lparr>exchanges := exchanges w @
            [(\<lparr>req_method = m, req_url = u, req_headers = h, req_json = j, req_params = p\<rparr>,
              responses w (length (exchanges w)))],
        printed := printed w @ transport_notices (responses w (length (exchanges w)))\<rparr>)"
  by (cases "responses w (length (exchanges w))") (simp_all add: send_request_def print_def Let_def)

lemma is_page_step:
  assumes "is_page p"
  shows "truthy p"
    and "ebind (py_get p ''content'' (JArr [])) py_iter = Inr (page_content p)"
    and "\<exists>l. py_get p ''last'' (JBool False) = Inr l \<and> truthy l = page_last p"
  using assms by (cases p; auto simp: ebind_def split: option.splits json.splits)+

lemma fetch_loop_continue:
  assumes "responses w (length (exchanges w)) = Decoded p" and "is_page p" and "\<not> page_last p"
  shows "fetch_loop u h sz params page acc w =
     fetch_loop u h sz params (page + 1) (acc @ page_content p)
       (w\<lparr>exchanges := exchanges w @ [(page_request u h sz params (page - 1), Decoded p)]\<rparr>)"
proof -
  obtain l where l: "py_get p ''last'' (JBool False) = Inr l" "truthy l = page_last p"
    using is_page_step(3)[OF assms(2)] by blast
  show ?thesis
    using assms l is_page_step(1,2)[OF assms(2)]
    by (subst fetch_loop.simps) (simp add: send_request_eq page_request_def)
qed

lemma fetch_loop_stop_last:
  assumes "responses w (length (exchanges w)) = Decoded p" and "is_page p" and "page_last p"
  shows "fetch_loop u h sz params page acc w =
     Some (Inr (acc @ page_content p),
       w\<lparr>exchanges := exchanges w @ [(page_request u h sz params (page - 1), Decoded p)]\<rparr>)"
proof -
  obtain l where l: "py_get p ''last'' (JBool False) = Inr l" "truthy l = page_last p"
    using is_page_step(3)[OF assms(2)] by blast
  show ?thesis
    using assms l is_page_step(1,2)[OF assms(2)]
    by (subst fetch_loop.simps) (simp add: send_request_eq page_request_def)
qed

lemma fetch_loop_stop_unusable:
  assumes "unusable (responses w (length (exchanges w)))"
  shows "fetch_loop u h sz params page acc w =
     Some (Inr acc,
       w\<lparr>exchanges := exchanges w @
             [(page_request u h sz params (page - 1), responses w (length (exchanges w)))],
         printed := printed w @ transport_notices (responses w (length (exchanges w)))\<rparr>)"
  using assms
  by (subst fetch_loop.simps) (simp add: send_request_eq page_request_def unusable_def)

lemma fetch_loop_prefix:
  assumes "\<forall>p\<in>set ps. is_page p \<and> \<not> page_last p"
    and "\<forall>i<length ps. responses w (length (exchanges w) + i) = Decoded (ps ! i)"
  shows "fetch_loop u h sz params page acc w =
     fetch_loop u h sz params (page + int (length ps)) (acc @ concat (map page_content ps))
       (w\<lparr>exchanges := exchanges w @
             map (\<lambda>i. (page_request u h sz params (page - 1 + int i), Decoded (ps ! i)))
               [0..<length ps]\<rparr>)"
  using assms
proof (induction ps arbitrary: page acc w)
  case Nil
  then show ?case by simp
next
  case (Cons p ps)
  have r0: "responses w (length (exchanges w)) = Decoded p"
    using Cons.prems(2) by fastforce
  let ?w1 = "w\<lparr>exchanges := exchanges w @ [(page_request u h sz params (page - 1), Decoded p)]\<rparr>"
  have r: "\<forall>i<length ps. responses ?w1 (length (exchanges ?w1) + i) = Decoded (ps ! i)"
  proof (intro allI impI)
    fix i assume "i < length ps"
    then have "responses w (length (exchanges w) + Suc i) = Decoded ((p # ps) ! Suc i)"
      using Cons.prems(2) by (metis Suc_less_eq length_Cons)
    then show "responses ?w1 (length (exchanges ?w1) + i) = Decoded (ps ! i)" by simp
  qed
  have m: "map (\<lambda>i. (page_request u h sz params (page - 1 + int i), Decoded ((p # ps) ! i)))
               [0..<length (p # ps)] =
           (page_request u h sz params (page - 1), Decoded p) #
           map (\<lambda>i. (page_request u h sz params (page + 1 - 1 + int i), Decoded (ps ! i)))
               [0..<length ps]"
    by (simp add: upt_conv_Cons map_Suc_upt[symmetric] del: upt_Suc)
  have "fetch_loop u h sz params page acc w =
        fetch_loop u h sz params (page + 1) (acc @ page_content p) ?w1"
    using fetch_loop_continue[OF r0] Cons.prems(1) by simp
  also have "\<dots> = fetch_loop u h sz params (page + 1 + int (length ps))
       ((acc @ page_content p) @ concat (map page_content ps))
       (?w1\<lparr>exchanges := exchanges ?w1 @
             map (\<lambda>i. (page_request u h sz params (page + 1 - 1 + int i), Decoded (ps ! i)))
               [0..<length ps]\<rparr>)"
    using Cons.IH[OF _ r] Cons.prems(1) by simp
  finally show ?case by (simp only: m) (simp add: algebra_simps)
qed

lemma fetch_loop_exchanges:
  assumes "fetch_loop u h sz params page acc w = Some y"
  shows "\<exists>ex. exchanges (snd y) =
            exchanges w @
            (page_request u h sz params (page - 1), responses w (length (exchanges w))) # ex
     \<and> responses (snd y) = responses w
     \<and> (\<forall>x\<in>set ex. req_method (fst x) = GET \<and> req_url (fst x) = u)"
proof (rule fetch_loop.raw_induct[where P = "\<lambda>u h sz params page acc w y.
     \<exists>ex. exchanges (snd y) =
            exchanges w @
            (page_request u h sz params (page - 1), responses w (length (exchanges w))) # ex
     \<and> responses (snd y) = responses w
     \<and> (\<forall>x\<in>set ex. req_method (fst x) = GET \<and> req_url (fst x) = u)", OF _ assms])
  fix f :: "fstring \<Rightarrow> dict \<Rightarrow> json \<Rightarrow> dict option \<Rightarrow> int \<Rightarrow> json list \<Rightarrow> world
              \<Rightarrow> ((error + json list) \<times> world) option"
    and u :: fstring and h :: dict and sz :: json and params :: "dict option" and page :: int
    and acc :: "json list" and w :: world and y :: "(error + json list) \<times> world"
  assume IH: "\<And>u h sz params page acc w y. f u h sz params page acc w = Some y \<Longrightarrow>
     \<exists>ex. exchanges (snd y) =
            exchanges w @
            (page_request u h sz params (page - 1), responses w (length (exchanges w))) # ex
     \<and> responses (snd y) = responses w
     \<and> (\<forall>x\<in>set ex. req_method (fst x) = GET \<and> req_url (fst x) = u)"
  assume step: "(case send_request GET u h JNull (Some (current_params params page sz)) w of
        (data, w1) \<Rightarrow>
          if \<not> truthy data then Some (Inr acc, w1)
          else (case ebind (py_get data ''content'' (JArr [])) py_iter of
                  Inl e \<Rightarrow> Some (Inl e, w1)
                | Inr items \<Rightarrow>
                    (case py_get data ''last'' (JBool False) of
                       Inl e \<Rightarrow> Some (Inl e, w1)
                     | Inr l \<Rightarrow>
                         if truthy l then Some (Inr (acc @ items), w1)
                         else f u h sz params (page + 1) (acc @ items) w1))) = Some y"
  let ?out = "responses w (length (exchanges w))"
  let ?w1 = "w\<lparr>exchanges := exchanges w @ [(page_request u h sz params (page - 1), ?out)],
               printed := printed w @ transport_notices ?out\<rparr>"
  from step consider (stop) "snd y = ?w1"
    | (continue) items where "f u h sz params (page + 1) (acc @ items) ?w1 = Some y"
    by (auto simp: send_request_eq page_request_def split: if_splits sum.splits)
  then show "\<exists>ex. exchanges (snd y) =
            exchanges w @
            (page_request u h sz params (page - 1), responses w (length (exchanges w))) # ex
     \<and> responses (snd y) = responses w
     \<and> (\<forall>x\<in>set ex. req_method (fst x) = GET \<and> req_url (fst x) = u)"
  proof cases
    case stop
    then show ?thesis by simp
  next
    case continue
    from IH[OF continue] obtain ex where
      "exchanges (snd y) =
         exchanges ?w1 @
         (page_request u h sz params (page + 1 - 1), responses ?w1 (length (exchanges ?w1))) # ex
       \<and> responses (snd y) = responses ?w1
       \<and> (\<forall>x\<in>set ex. req_method (fst x) = GET \<and> req_url (fst x) = u)" ..
    then show ?thesis by (simp add: page_request_def)
  qed
qed

lemma map_of_fold_update_other:
  "map_of ps k = None \<Longrightarrow>
   map_of (fold (\<lambda>kv. AList.update (fst kv) (snd kv)) ps cur) k = map_of cur k"
proof (induction ps arbitrary: cur)
  case Nil
  then show ?case by simp
next
  case (Cons a ps)
  then show ?case by (cases a) (auto simp: update_conv' split: if_splits)
qed

lemma current_params_page:
  "page_not_redefined params \<Longrightarrow>
   map_of (current_params params page sz) ''page'' = Some (JInt (page - 1))"
  by (cases params)
     (auto simp: current_params_def page_not_redefined_def params_truthy_def Let_def
        map_of_fold_update_other)

lemma requested_page_request:
  "page_not_redefined params \<Longrightarrow> requested_page (page_request u h sz params i) = Some (JInt i)"
  using current_params_page[of params "i + 1" sz]
  by (simp add: requested_page_def page_request_def)

lemma prepare_headers_section:
  "map_of kvs key = Some (JObj sec) \<Longrightarrow>
   prepare_headers (JObj kvs) key =
     Inr [(''ApiKey'', field_or_null sec ''ApiKey''),
          (''CustomerId'', field_or_null sec ''CustomerId''),
          (''Content-Type'', JStr ''application/json'')]"
  by (simp add: prepare_headers_def ebind_def field_or_null_def split: option.splits)

lemma fetch_paginated_data_loop:
  assumes "py_getitem config ''source'' = Inr (JObj src)" and "map_of src ''url'' = Some base"
  shows "\<exists>h. prepare_headers config ''source'' = Inr h \<and>
     fetch_paginated_data config endpoint params w =
       fetch_loop (get_endpoint base endpoint) h (page_size params) params 1 [] w"
proof -
  obtain kvs where c: "config = JObj kvs" "map_of kvs ''source'' = Some (JObj src)"
    using assms(1) by (cases config) (auto split: option.splits)
  show ?thesis
    using c assms(2) prepare_headers_section[OF c(2)]
    by (simp add: fetch_paginated_data_def ebind_def)
qed

lemma map_upt_snoc:
  "map (\<lambda>i. f i ((qs @ [p]) ! i)) [0..<length (qs @ [p])] =
   map (\<lambda>i. f i (qs ! i)) [0..<length qs] @ [f (length qs) p]"
  by (simp add: nth_append)

text \<open>
  Claim C1. When the transport delivers the pages \<open>ps\<close> to the next requests, every page
  before the last one is not marked last and the last one is, \<open>fetch_paginated_data\<close>
  returns the concatenation of the \<open>content\<close> arrays of all the pages in the order they
  were delivered. It sends one listing request for each page, and the request number \<open>i\<close>
  asks for the page index \<open>i\<close>, counted from 0 (the extra parameters do not redefine
  \<open>page\<close>). Nothing is printed.
\<close>

theorem paginator_concatenates_pages:
  assumes "py_getitem config ''source'' = Inr (JObj src)" and "map_of src ''url'' = Some base"
    and "page_not_redefined params"
    and "ps \<noteq> []" and "\<forall>p\<in>set ps. is_page p"
    and "\<forall>p\<in>set (butlast ps). \<not> page_last p" and "page_last (last ps)"
    and "\<forall>i<length ps. responses w (length (exchanges w) + i) = Decoded (ps ! i)"
  shows "\<exists>w' h. fetch_paginated_data config endpoint params w =
             Some (Inr (concat (map page_content ps)), w')
         \<and> prepare_headers config ''source'' = Inr h
         \<and> exchanges w' = exchanges w @
               map (\<lambda>i. (page_request (get_endpoint base endpoint) h (page_size params) params
                           (int i), Decoded (ps ! i))) [0..<length ps]
         \<and> map (\<lambda>x. requested_page (fst x)) (drop (length (exchanges w)) (exchanges w')) =
               map (\<lambda>i. Some (JInt (int i))) [0..<length ps]
         \<and> printed w' = printed w"
proof -
  obtain h where h: "prepare_headers config ''source'' = Inr h"
    and f: "fetch_paginated_data config endpoint params w =
       fetch_loop (get_endpoint base endpoint) h (page_size params) params 1 [] w"
    using fetch_paginated_data_loop[OF assms(1,2)] by blast
  let ?u = "get_endpoint base endpoint" and ?sz = "page_size params"
  obtain qs p where ps: "ps = qs @ [p]"
    using assms(4) by (cases ps rule: rev_cases) auto
  let ?w1 = "w\<lparr>exchanges := exchanges w @
               map (\<lambda>i. (page_request ?u h ?sz params (1 - 1 + int i), Decoded (qs ! i)))
                 [0..<length qs]\<rparr>"
  let ?w2 = "?w1\<lparr>exchanges := exchanges ?w1 @
          [(page_request ?u h ?sz params (1 + int (length qs) - 1), Decoded p)]\<rparr>"
  have q1: "\<forall>p\<in>set qs. is_page p \<and> \<not> page_last p"
    using assms(5,6) by (simp add: ps)
  have q2: "\<forall>i<length qs. responses w (length (exchanges w) + i) = Decoded (qs ! i)"
  proof (intro allI impI)
    fix i assume i: "i < length qs"
    then have "responses w (length (exchanges w) + i) = Decoded (ps ! i)"
      using assms(8) by (simp add: ps)
    then show "responses w (length (exchanges w) + i) = Decoded (qs ! i)"
      using i by (simp add: ps nth_append)
  qed
  have l1: "responses ?w1 (length (exchanges ?w1)) = Decoded p"
    using assms(8)[rule_format, of "length qs"] by (simp add: ps)
  have l2: "is_page p" "page_last p" using assms(5,7) by (simp_all add: ps)
  have "fetch_loop ?u h ?sz params 1 [] w =
        fetch_loop ?u h ?sz params (1 + int (length qs)) ([] @ concat (map page_content qs)) ?w1"
    by (rule fetch_loop_prefix[OF q1 q2])
  also have "\<dots> = Some (Inr (([] @ concat (map page_content qs)) @ page_content p), ?w2)"
    by (rule fetch_loop_stop_last[OF l1 l2])
  finally have r: "fetch_paginated_data config endpoint params w =
      Some (Inr (concat (map page_content ps)), ?w2)"
    using f by (simp add: ps)
  have e: "exchanges ?w2 = exchanges w @
      map (\<lambda>i. (page_request ?u h ?sz params (int i), Decoded (ps ! i))) [0..<length ps]"
    unfolding ps map_upt_snoc[of "\<lambda>i x. (page_request ?u h ?sz params (int i), Decoded x)"]
    by simp
  have g: "map (\<lambda>x. requested_page (fst x)) (drop (length (exchanges w)) (exchanges ?w2)) =
      map (\<lambda>i. Some (JInt (int i))) [0..<length ps]"
    unfolding e using requested_page_request[OF assms(3)] by (simp add: comp_def)
  have "fetch_paginated_data config endpoint params w =
             Some (Inr (concat (map page_content ps)), ?w2)
         \<and> prepare_headers config ''source'' = Inr h
         \<and> exchanges ?w2 = exchanges w @
               map (\<lambda>i. (page_request ?u h ?sz params (int i), Decoded (ps ! i))) [0..<length ps]
         \<and> map (\<lambda>x. requested_page (fst x)) (drop (length (exchanges w)) (exchanges ?w2)) =
               map (\<lambda>i. Some (JInt (int i))) [0..<length ps]
         \<and> printed ?w2 = printed w"
    using r h e g by simp
  then show ?thesis by blast
qed

text \<open>Three pages, the second one empty, read from a fresh world.\<close>

theorem paginator_concatenates_pages_witness:
  "\<exists>w'. fetch_paginated_data (demo_config []) Audiences None (new_world (map Decoded demo_pages)) =
           Some (Inr [JStr ''a'', JStr ''b'', JStr ''c''], w')
        \<and> map (\<lambda>x. requested_page (fst x)) (exchanges w') = [Some (JInt 0), Some (JInt 1), Some (JInt 2)]"
proof -
  let ?w = "new_world (map Decoded demo_pages)"
  have 1: "py_getitem (demo_config []) ''source'' = Inr (JObj demo_source)"
    by (simp add: demo_config_def)
  have 2: "map_of demo_source ''url'' = Some (JStr ''https://src/'')"
    by (simp add: demo_source_def)
  have 3: "page_not_redefined None" by (simp add: page_not_redefined_def)
  have 4: "demo_pages \<noteq> []" by (simp add: demo_pages_def)
  have 5: "\<forall>p\<in>set demo_pages. is_page p" by (simp add: demo_pages_def)
  have 6: "\<forall>p\<in>set (butlast demo_pages). \<not> page_last p" by (simp add: demo_pages_def)
  have 7: "page_last (last demo_pages)" by (simp add: demo_pages_def)
  have 8: "\<forall>i<length demo_pages. responses ?w (length (exchanges ?w) + i) = Decoded (demo_pages ! i)"
    by (auto simp: new_world_def script_def demo_pages_def less_Suc_eq)
  show ?thesis
    using paginator_concatenates_pages[OF 1 2 3 4 5 6 7 8, of Audiences]
    by (auto simp: demo_pages_def new_world_def)
qed

text \<open>
  Claim C6. When the pages \<open>ps\<close> (none of them marked last; there may be none) have been
  delivered and the next listing request meets an unusable response (a transport error, an
  undecodable body or a falsy body), \<open>fetch_paginated_data\<close> ends there and returns,
  as a normal value, exactly the records of \<open>ps\<close>; it raises nothing and the only lines
  printed are those of the transport for that response.
\<close>

theorem paginator_stops_on_unusable_response:
  assumes "py_getitem config ''source'' = Inr (JObj src)" and "map_of src ''url'' = Some base"
    and "\<forall>p\<in>set ps. is_page p \<and> \<not> page_last p"
    and "\<forall>i<length ps. responses w (length (exchanges w) + i) = Decoded (ps ! i)"
    and "unusable (responses w (length (exchanges w) + length ps))"
  shows "\<exists>w'. fetch_paginated_data config endpoint params w =
             Some (Inr (concat (map page_content ps)), w')
         \<and> length (exchanges w') = length (exchanges w) + length ps + 1
         \<and> printed w' =
             printed w @ transport_notices (responses w (length (exchanges w) + length ps))"
proof -
  obtain h where h: "prepare_headers config ''source'' = Inr h"
    and f: "fetch_paginated_data config endpoint params w =
       fetch_loop (get_endpoint base endpoint) h (page_size params) params 1 [] w"
    using fetch_paginated_data_loop[OF assms(1,2)] by blast
  let ?u = "get_endpoint base endpoint" and ?sz = "page_size params"
  let ?w1 = "w\<lparr>exchanges := exchanges w @
               map (\<lambda>i. (page_request ?u h ?sz params (1 - 1 + int i), Decoded (ps ! i)))
                 [0..<length ps]\<rparr>"
  let ?out = "responses ?w1 (length (exchanges ?w1))"
  let ?w2 = "?w1\<lparr>exchanges := exchanges ?w1 @
                [(page_request ?u h ?sz params (1 + int (length ps) - 1), ?out)],
              printed := printed ?w1 @ transport_notices ?out\<rparr>"
  have o: "?out = responses w (length (exchanges w) + length ps)" by simp
  have u: "unusable ?out" using assms(5) by simp
  have "fetch_loop ?u h ?sz params 1 [] w =
        fetch_loop ?u h ?sz params (1 + int (length ps)) ([] @ concat (map page_content ps)) ?w1"
    by (rule fetch_loop_prefix[OF assms(3,4)])
  also have "\<dots> = Some (Inr ([] @ concat (map page_content ps)), ?w2)"
    by (rule fetch_loop_stop_unusable[OF u])
  finally have "fetch_paginated_data config endpoint params w =
      Some (Inr (concat (map page_content ps)), ?w2)"
    using f by simp
  moreover have "length (exchanges ?w2) = length (exchanges w) + length ps + 1" by simp
  moreover have "printed ?w2 =
      printed w @ transport_notices (responses w (length (exchanges w) + length ps))" by simp
  ultimately show ?thesis by blast
qed

text \<open>Two pages, then a timeout: the records of the two pages are returned.\<close>

theorem paginator_stops_on_unusable_response_witness:
  "\<exists>w'. fetch_paginated_data (demo_config []) Connections None
           (new_world (map Decoded (take 2 demo_pages) @ [RequestException ''timeout''])) =
           Some (Inr [JStr ''a'', JStr ''b''], w')
        \<and> length (exchanges w') = 3 \<and> printed w' = [HttpErrorNotice ''timeout'']"
proof -
  let ?w = "new_world (map Decoded (take 2 demo_pages) @ [RequestException ''timeout''])"
  have 1: "py_getitem (demo_config []) ''source'' = Inr (JObj demo_source)"
    by (simp add: demo_config_def)
  have 2: "map_of demo_source ''url'' = Some (JStr ''https://src/'')"
    by (simp add: demo_source_def)
  have 3: "\<forall>p\<in>set (take 2 demo_pages). is_page p \<and> \<not> page_last p"
    by (simp add: demo_pages_def)
  have 4: "\<forall>i<length (take 2 demo_pages).
      responses ?w (length (exchanges ?w) + i) = Decoded (take 2 demo_pages ! i)"
    by (auto simp: new_world_def script_def demo_pages_def less_Suc_eq)
  have 5: "unusable (responses ?w (length (exchanges ?w) + length (take 2 demo_pages)))"
    by (simp add: new_world_def script_def demo_pages_def unusable_def)
  show ?thesis
    using paginator_stops_on_unusable_response[OF 1 2 3 4 5, of Connections None]
    by (simp add: demo_pages_def new_world_def script_def numeral_3_eq_3)
qed

text \<open>
  Claim C7. Let the pages \<open>ps\<close>, none marked last, be followed by a page \<open>p\<close> (a
  decodable, non-empty response). The paginator stops at \<open>p\<close>, that is returns having
  made exactly one request for each page up to \<open>p\<close>, if and only if \<open>p\<close> is marked
  last. When \<open>p\<close> is not marked last, every run that returns has requested the next
  page index. No hypothesis mentions the length of a \<open>content\<close> array: a page with no
  records that is not marked last is followed by the next request.
\<close>

theorem page_boundary_is_last_flag:
  assumes "py_getitem config ''source'' = Inr (JObj src)" and "map_of src ''url'' = Some base"
    and "\<forall>q\<in>set ps. is_page q \<and> \<not> page_last q"
    and "is_page p"
    and "\<forall>i<length ps. responses w (length (exchanges w) + i) = Decoded (ps ! i)"
    and "responses w (length (exchanges w) + length ps) = Decoded p"
  shows "((\<exists>r w'. fetch_paginated_data config endpoint params w = Some (r, w')
            \<and> length (exchanges w') = length (exchanges w) + length ps + 1) \<longleftrightarrow> page_last p)
     \<and> (page_last p \<longrightarrow>
          (\<exists>w'. fetch_paginated_data config endpoint params w =
                  Some (Inr (concat (map page_content ps) @ page_content p), w')))
     \<and> (\<not> page_last p \<longrightarrow>
          (\<forall>r w'. fetch_paginated_data config endpoint params w = Some (r, w') \<longrightarrow>
             length (exchanges w') > length (exchanges w) + length ps + 1
             \<and> (\<exists>h. prepare_headers config ''source'' = Inr h
                  \<and> fst (exchanges w' ! (length (exchanges w) + length ps + 1)) =
                      page_request (get_endpoint base endpoint) h (page_size params) params
                        (int (length ps) + 1))))"
proof -
  obtain h where h: "prepare_headers config ''source'' = Inr h"
    and f: "fetch_paginated_data config endpoint params w =
       fetch_loop (get_endpoint base endpoint) h (page_size params) params 1 [] w"
    using fetch_paginated_data_loop[OF assms(1,2)] by blast
  let ?u = "get_endpoint base endpoint" and ?sz = "page_size params"
  let ?w1 = "w\<lparr>exchanges := exchanges w @
               map (\<lambda>i. (page_request ?u h ?sz params (1 - 1 + int i), Decoded (ps ! i)))
                 [0..<length ps]\<rparr>"
  let ?w2 = "?w1\<lparr>exchanges := exchanges ?w1 @
          [(page_request ?u h ?sz params (1 + int (length ps) - 1), Decoded p)]\<rparr>"
  have l1: "responses ?w1 (length (exchanges ?w1)) = Decoded p"
    using assms(6) by simp
  have pre: "fetch_paginated_data config endpoint params w =
        fetch_loop ?u h ?sz params (1 + int (length ps)) ([] @ concat (map page_content ps)) ?w1"
    using f fetch_loop_prefix[OF assms(3,5), of ?u h ?sz params 1 "[]"] by simp
  have last: "fetch_paginated_data config endpoint params w =
      Some (Inr (concat (map page_content ps) @ page_content p), ?w2)" if "page_last p"
    using pre fetch_loop_stop_last[OF l1 assms(4) that, of ?u h ?sz params "1 + int (length ps)"
        "[] @ concat (map page_content ps)"]
    by simp
  have more: "length (exchanges w') > length (exchanges w) + length ps + 1
      \<and> fst (exchanges w' ! (length (exchanges w) + length ps + 1)) =
          page_request ?u h ?sz params (int (length ps) + 1)"
    if nl: "\<not> page_last p" and res: "fetch_paginated_data config endpoint params w = Some (r, w')"
    for r w'
  proof -
    have "fetch_loop ?u h ?sz params (1 + int (length ps) + 1)
            (([] @ concat (map page_content ps)) @ page_content p) ?w2 = Some (r, w')"
      using pre res fetch_loop_continue[OF l1 assms(4) nl, of ?u h ?sz params
          "1 + int (length ps)" "[] @ concat (map page_content ps)"]
      by simp
    from fetch_loop_exchanges[OF this] obtain ex where
      "exchanges w' = exchanges ?w2 @
         (page_request ?u h ?sz params (1 + int (length ps) + 1 - 1),
          responses ?w2 (length (exchanges ?w2))) # ex"
      by auto
    then show ?thesis by (simp add: nth_append algebra_simps)
  qed
  have iff: "(\<exists>r w'. fetch_paginated_data config endpoint params w = Some (r, w')
            \<and> length (exchanges w') = length (exchanges w) + length ps + 1) \<longleftrightarrow> page_last p"
  proof
    assume "\<exists>r w'. fetch_paginated_data config endpoint params w = Some (r, w')
            \<and> length (exchanges w') = length (exchanges w) + length ps + 1"
    then show "page_last p" using more by fastforce
  next
    assume lp: "page_last p"
    have "length (exchanges ?w2) = length (exchanges w) + length ps + 1" by simp
    with last[OF lp] show "\<exists>r w'. fetch_paginated_data config endpoint params w = Some (r, w')
            \<and> length (exchanges w') = length (exchanges w) + length ps + 1" by blast
  qed
  show ?thesis using iff last more h by blast
qed

lemma empty_then_last_evaluated:
  "\<exists>w'. fetch_paginated_data (demo_config []) Templates None
           (new_world (map Decoded empty_then_last)) = Some (Inr [JInt 5], w')
      \<and> length (exchanges w') = 2"
  by (simp add: fetch_paginated_data_def demo_config_def demo_source_def prepare_headers_def
      ebind_def fetch_loop.simps send_request_eq new_world_def script_def empty_then_last_def)

text \<open>
  The first page has no records and is not last: the run does not stop after one request,
  it asks for the page index 1 and returns the record of the second page.
\<close>

theorem page_boundary_is_last_flag_witness:
  "page_content (empty_then_last ! 0) = [] \<and>
   \<not> (\<exists>r w'. fetch_paginated_data (demo_config []) Templates None
                (new_world (map Decoded empty_then_last)) = Some (r, w')
            \<and> length (exchanges w') = 1) \<and>
   (\<exists>w'. fetch_paginated_data (demo_config []) Templates None
           (new_world (map Decoded empty_then_last)) = Some (Inr [JInt 5], w')
      \<and> length (exchanges w') = 2
      \<and> requested_page (fst (exchanges w' ! 1)) = Some (JInt 1))"
proof -
  let ?w = "new_world (map Decoded empty_then_last)"
  have 1: "py_getitem (demo_config []) ''source'' = Inr (JObj demo_source)"
    by (simp add: demo_config_def)
  have 2: "map_of demo_source ''url'' = Some (JStr ''https://src/'')"
    by (simp add: demo_source_def)
  have 3: "\<forall>q\<in>set []. is_page q \<and> \<not> page_last q" by simp
  have 4: "is_page (empty_then_last ! 0)" by (simp add: empty_then_last_def)
  have 5: "\<forall>i<length []. responses ?w (length (exchanges ?w) + i) = Decoded ([] ! i)" by simp
  have 6: "responses ?w (length (exchanges ?w) + length []) = Decoded (empty_then_last ! 0)"
    by (simp add: new_world_def script_def empty_then_last_def)
  have nl: "\<not> page_last (empty_then_last ! 0)" by (simp add: empty_then_last_def)
  note T = page_boundary_is_last_flag[OF 1 2 3 4 5 6, of Templates None]
  have a: "page_content (empty_then_last ! 0) = []" by (simp add: empty_then_last_def)
  have b: "\<not> (\<exists>r w'. fetch_paginated_data (demo_config []) Templates None ?w = Some (r, w')
            \<and> length (exchanges w') = 1)"
    using T[THEN conjunct1] nl by (simp add: new_world_def)
  from empty_then_last_evaluated obtain v where v:
    "fetch_paginated_data (demo_config []) Templates None ?w = Some (Inr [JInt 5], v)"
    "length (exchanges v) = 2"
    by (elim exE conjE)
  from T[THEN conjunct2, THEN conjunct2, rule_format, OF nl v(1)]
  have "\<exists>h. fst (exchanges v ! 1) =
      page_request (get_endpoint (JStr ''https://src/'') Templates) h (page_size None) None 1"
    by (auto simp: new_world_def)
  then have "requested_page (fst (exchanges v ! 1)) = Some (JInt 1)"
    using requested_page_request[of None _ _ _ 1]
    by (auto simp: page_not_redefined_def)
  with v have c: "fetch_paginated_data (demo_config []) Templates None ?w = Some (Inr [JInt 5], v)
      \<and> length (exchanges v) = 2
      \<and> requested_page (fst (exchanges v ! 1)) = Some (JInt 1)"
    by simp
  have "\<exists>w'. fetch_paginated_data (demo_config []) Templates None ?w = Some (Inr [JInt 5], w')
      \<and> length (exchanges w') = 2
      \<and> requested_page (fst (exchanges w' ! 1)) = Some (JInt 1)"
    using c by (intro exI)
  with a b show ?thesis by (intro conjI)
qed

section \<open>Configuration validation: properties\<close>

lemma check_fields_object:
  "map_of kvs s = Some (JObj sec) \<Longrightarrow>
   check_fields (JObj kvs) s fs =
     (case find (\<lambda>f. map_of sec f = None) fs of
        None \<Rightarrow> Inr ()
      | Some f \<Rightarrow> Inl (MissingField f s))"
  by (induction fs) (auto simp: ebind_def)

lemma check_sections_step:
  "check_sections (JObj kvs) (s # ss) =
     (case map_of kvs s of
        None \<Rightarrow> Inl (MissingSection s)
      | Some v \<Rightarrow>
          (case map_of required_fields s of
             None \<Rightarrow> Inl (KeyError s)
           | Some fs \<Rightarrow>
               ebind (check_fields (JObj kvs) s fs) (\<lambda>_. check_sections (JObj kvs) ss)))"
  by (simp add: ebind_def split: option.splits)

lemma validate_config_lacking:
  assumes "sections_are_objects config" and "lacks_required config"
  shows "\<exists>e. validate_config config = Inl e \<and> is_configuration_error e"
proof -
  obtain kvs where c: "config = JObj kvs" using assms(1) by (cases config) auto
  have rf: "map_of required_fields ''source'' = Some [''url'', ''ApiKey'', ''CustomerId'']"
    "map_of required_fields ''destination'' = Some [''url'', ''ApiKey'', ''CustomerId'']"
    by (simp_all add: required_fields_def)
  show ?thesis
  proof (cases "map_of kvs ''source''")
    case None
    then show ?thesis
      by (simp add: c validate_config_def required_sections_def check_sections_step
          del: check_sections.simps)
  next
    case (Some v)
    then obtain src where src: "map_of kvs ''source'' = Some (JObj src)"
      using assms(1) by (cases v) (auto simp: c)
    show ?thesis
    proof (cases "map_of kvs ''destination''")
      case None
      then show ?thesis
        using src
        by (simp add: c validate_config_def required_sections_def check_sections_step rf
            check_fields_object ebind_def del: check_sections.simps split: option.splits)
    next
      case (Some v')
      then obtain dst where dst: "map_of kvs ''destination'' = Some (JObj dst)"
        using assms(1) by (cases v') (auto simp: c)
      have "(\<exists>f\<in>set [''url'', ''ApiKey'', ''CustomerId'']. map_of src f = None)
          \<or> (\<exists>f\<in>set [''url'', ''ApiKey'', ''CustomerId'']. map_of dst f = None)"
        using assms(2) src dst by (auto simp: c)
      then show ?thesis
        using src dst
        by (auto simp add: c validate_config_def required_sections_def check_sections_step rf
            check_fields_object ebind_def simp del: check_sections.simps split: option.splits)
    qed
  qed
qed

text \<open>
  Claim C4. A configuration that lacks a required section or a required field makes
  \<open>validate_config\<close> raise a configuration error, and \<open>main\<close> ends with that error in
  the world it started in: no flow has started, no request has been sent and nothing has
  been printed, whatever the migration flags say.
\<close>

theorem missing_configuration_is_fatal_before_any_request:
  assumes "sections_are_objects config" and "lacks_required config"
  shows "\<exists>e. validate_config config = Inl e \<and> is_configuration_error e
           \<and> main set_order lower config w = Some (Inl e, w)"
proof -
  obtain e where "validate_config config = Inl e" "is_configuration_error e"
    using validate_config_lacking[OF assms] by blast
  then show ?thesis by (simp add: main_def)
qed

text \<open>The destination section has no \<open>ApiKey\<close>; the list of exchanges stays empty.\<close>

theorem missing_configuration_is_fatal_before_any_request_witness:
  "main id ascii_lower config_without_key (new_world [Decoded (JObj [(''last'', JBool True)])]) =
     Some (Inl (MissingField ''ApiKey'' ''destination''),
           new_world [Decoded (JObj [(''last'', JBool True)])])
   \<and> exchanges (new_world [Decoded (JObj [(''last'', JBool True)])]) = []"
proof -
  have 1: "sections_are_objects config_without_key"
    by (simp add: config_without_key_def)
  have 2: "lacks_required config_without_key"
    by (simp add: config_without_key_def)
  have 3: "validate_config config_without_key = Inl (MissingField ''ApiKey'' ''destination'')"
    by (simp add: config_without_key_def validate_config_def required_sections_def
        required_fields_def ebind_def demo_source_def)
  show ?thesis
    using missing_configuration_is_fatal_before_any_request[OF 1 2, of id ascii_lower
        "new_world [Decoded (JObj [(''last'', JBool True)])]"] 3
    by (auto simp: new_world_def)
qed

section \<open>The migration flags: properties\<close>

lemma calls_only_refl: "calls_only s xs xs"
  by (simp add: calls_only_def)

lemma calls_only_trans:
  "calls_only s xs ys \<Longrightarrow> calls_only s ys zs \<Longrightarrow> calls_only s xs zs"
  by (auto simp: calls_only_def)

lemma exchanges_print [simp]: "exchanges (print n w) = exchanges w"
  by (simp add: print_def)

lemma calls_only_send_request:
  "send_request m (base # Lit s # rest) h j p w = (r, w') \<Longrightarrow>
   calls_only s (exchanges w) (exchanges w')"
  by (auto simp: send_request_eq calls_only_def request_endpoint_def)

lemma calls_only_fetch_paginated_data:
  assumes "fetch_paginated_data config E params w = Some (r, w')"
  shows "calls_only (ENDPOINTS E) (exchanges w) (exchanges w')"
proof (cases "ebind (py_getitem config ''source'') (\<lambda>src. py_getitem src ''url'')")
  case (Inl e)
  then show ?thesis using assms by (simp add: fetch_paginated_data_def calls_only_refl)
next
  case (Inr base)
  show ?thesis
  proof (cases "prepare_headers config ''source''")
    case (Inl e)
    then show ?thesis using assms Inr by (simp add: fetch_paginated_data_def calls_only_refl)
  next
    case h: (Inr h)
    have "fetch_loop (get_endpoint base E) h (page_size params) params 1 [] w = Some (r, w')"
      using assms Inr h by (simp add: fetch_paginated_data_def)
    from fetch_loop_exchanges[OF this] show ?thesis
      by (auto simp: calls_only_def request_endpoint_def page_request_def get_endpoint_def)
  qed
qed

lemma calls_only_fetch_content:
  "fetch_content config tid w = (r, w') \<Longrightarrow>
   calls_only (ENDPOINTS Templates) (exchanges w) (exchanges w')"
  by (auto simp: fetch_content_def get_endpoint_def calls_only_refl
      split: sum.splits prod.splits dest: calls_only_send_request)

lemma calls_only_create_template:
  "create_template config d w = (r, w') \<Longrightarrow>
   calls_only (ENDPOINTS Templates) (exchanges w) (exchanges w')"
  by (auto simp: create_template_def get_endpoint_def calls_only_refl
      split: sum.splits prod.splits if_splits dest: calls_only_send_request)

lemma calls_only_create_audience:
  "create_audience config d w = (r, w') \<Longrightarrow>
   calls_only (ENDPOINTS Audiences) (exchanges w) (exchanges w')"
  by (auto simp: create_audience_def get_endpoint_def calls_only_refl
      split: sum.splits prod.splits if_splits dest: calls_only_send_request)

lemma calls_only_main_templates_loop:
  "main_templates_loop config ts w = (r, w') \<Longrightarrow>
   calls_only (ENDPOINTS Templates) (exchanges w) (exchanges w')"
proof (induction ts arbitrary: w)
  case Nil
  then show ?case by (simp add: calls_only_refl)
next
  case (Cons t ts)
  show ?case
  proof (cases "py_getitem t ''id''")
    case (Inl e)
    then show ?thesis using Cons.prems by (simp add: calls_only_refl)
  next
    case (Inr tid)
    obtain r1 w1 where f: "fetch_content config tid (print (MigratingTemplate tid) w) = (r1, w1)"
      by (cases "fetch_content config tid (print (MigratingTemplate tid) w)")
    have c1: "calls_only (ENDPOINTS Templates) (exchanges w) (exchanges w1)"
      using calls_only_fetch_content[OF f] by simp
    show ?thesis
    proof (cases r1)
      case (Inl e)
      then show ?thesis using Cons.prems Inr f c1 by simp
    next
      case d: (Inr d)
      show ?thesis
      proof (cases "truthy d")
        case False
        then have "main_templates_loop config ts w1 = (r, w')"
          using Cons.prems Inr f d by simp
        from calls_only_trans[OF c1 Cons.IH[OF this]] show ?thesis .
      next
        case True
        obtain r2 w2 where c: "create_template config d w1 = (r2, w2)"
          by (cases "create_template config d w1")
        have c2: "calls_only (ENDPOINTS Templates) (exchanges w) (exchanges w2)"
          using calls_only_trans[OF c1 calls_only_create_template[OF c]] .
        show ?thesis
        proof (cases r2)
          case (Inl e)
          then show ?thesis using Cons.prems Inr f d True c c2 by simp
        next
          case (Inr x)
          then have "main_templates_loop config ts w2 = (r, w')"
            using Cons.prems \<open>py_getitem t ''id'' = Inr tid\<close> f d True c by simp
          from calls_only_trans[OF c2 Cons.IH[OF this]] show ?thesis .
        qed
      qed
    qed
  qed
qed

lemma calls_only_main_audiences_loop:
  "main_audiences_loop config as w = (r, w') \<Longrightarrow>
   calls_only (ENDPOINTS Audiences) (exchanges w) (exchanges w')"
proof (induction as arbitrary: w)
  case Nil
  then show ?case by (simp add: calls_only_refl)
next
  case (Cons a as)
  show ?case
  proof (cases "py_getitem a ''name''")
    case (Inl e)
    then show ?thesis using Cons.prems by (simp add: calls_only_refl)
  next
    case (Inr n)
    obtain r1 w1 where c: "create_audience config a (print (MigratingAudience n) w) = (r1, w1)"
      by (cases "create_audience config a (print (MigratingAudience n) w)")
    have c1: "calls_only (ENDPOINTS Audiences) (exchanges w) (exchanges w1)"
      using calls_only_create_audience[OF c] by simp
    show ?thesis
    proof (cases r1)
      case (Inl e)
      then show ?thesis using Cons.prems Inr c c1 by simp
    next
      case x: (Inr x)
      then have "main_audiences_loop config as w1 = (r, w')"
        using Cons.prems Inr c by simp
      from calls_only_trans[OF c1 Cons.IH[OF this]] show ?thesis .
    qed
  qed
qed

lemma calls_only_sync_loop:
  "sync_loop sm cm h (base # Lit s # rest) names w = (r, w') \<Longrightarrow>
   calls_only s (exchanges w) (exchanges w')"
proof (induction names arbitrary: w)
  case Nil
  then show ?case by (simp add: calls_only_refl)
next
  case (Cons n names)
  show ?case
  proof (cases "map_of sm n")
    case None
    then show ?thesis using Cons.prems by (simp add: calls_only_refl)
  next
    case sdb: (Some sdb)
    show ?thesis
    proof (cases "map_of cm n")
      case None
      then show ?thesis using Cons.prems sdb by (simp add: calls_only_refl)
    next
      case cdb: (Some cdb)
      show ?thesis
      proof (cases "merge_payload sdb cdb")
        case (Inl e)
        then show ?thesis using Cons.prems sdb cdb by (simp add: calls_only_refl)
      next
        case (Inr payload)
        obtain r1 w1 where sr: "send_request POST (base # Lit s # rest) h (JObj payload) None w = (r1, w1)"
          by (cases "send_request POST (base # Lit s # rest) h (JObj payload) None w")
        let ?w2 = "print (if truthy r1 then ConnectionCreated n else ConnectionFailed n) w1"
        have "sync_loop sm cm h (base # Lit s # rest) names ?w2 = (r, w')"
          using Cons.prems sdb cdb Inr sr by simp
        from Cons.IH[OF this] calls_only_send_request[OF sr] show ?thesis
          by (auto intro: calls_only_trans)
      qed
    qed
  qed
qed

lemma calls_only_sync_connections:
  "sync_connections set_order lower dbs config w = (r, w') \<Longrightarrow>
   calls_only (ENDPOINTS Connections) (exchanges w) (exchanges w')"
  by (auto simp: sync_connections_def get_endpoint_def calls_only_refl
      split: sum.splits dest: calls_only_sync_loop)

lemma main_templates_calls:
  assumes "main_templates config mc w = Some (r, w')"
  shows "calls_only (ENDPOINTS Templates) (exchanges w) (exchanges w')
     \<and> ((case py_get mc ''templates'' (JBool False) of Inl e \<Rightarrow> False | Inr f \<Rightarrow> truthy f)
          \<or> w' = w)"
  using assms
  by (auto simp: main_templates_def calls_only_refl
      split: sum.splits if_splits option.splits prod.splits
      dest!: calls_only_fetch_paginated_data calls_only_main_templates_loop
      intro: calls_only_trans)

lemma main_audiences_calls:
  assumes "main_audiences config mc w = Some (r, w')"
  shows "calls_only (ENDPOINTS Audiences) (exchanges w) (exchanges w')
     \<and> ((case py_get mc ''audiences'' (JBool False) of Inl e \<Rightarrow> False | Inr f \<Rightarrow> truthy f)
          \<or> w' = w)"
  using assms
  by (auto simp: main_audiences_def fetch_audiences_def calls_only_refl
      split: sum.splits if_splits option.splits prod.splits
      dest!: calls_only_fetch_paginated_data calls_only_main_audiences_loop
      intro: calls_only_trans)

lemma main_databases_calls:
  assumes "main_databases set_order lower config mc w = Some (r, w')"
  shows "calls_only (ENDPOINTS Connections) (exchanges w) (exchanges w')
     \<and> ((case py_get mc ''databases'' (JBool False) of Inl e \<Rightarrow> False | Inr f \<Rightarrow> truthy f)
          \<or> w' = w)"
  using assms
  by (auto simp: main_databases_def calls_only_refl
      split: sum.splits if_splits option.splits prod.splits
      dest!: calls_only_fetch_paginated_data calls_only_sync_connections
      intro: calls_only_trans)

lemma main_cases:
  assumes "main set_order lower config w = Some (r, w')"
  shows "w' = w \<or>
     (\<exists>mc r1 w1. py_get config ''migrating'' (JObj []) = Inr mc
        \<and> main_templates config mc w = Some (r1, w1)
        \<and> (w' = w1 \<or>
            (\<exists>r2 w2. main_audiences config mc w1 = Some (r2, w2)
               \<and> (w' = w2 \<or> main_databases set_order lower config mc w2 = Some (r, w')))))"
  using assms
  by (auto simp: main_def split: sum.splits option.splits prod.splits)

lemma flags_off_flow:
  "\<not> (case py_get mc ''templates'' (JBool False) of Inl e \<Rightarrow> False | Inr f \<Rightarrow> truthy f) \<Longrightarrow>
     \<exists>r. main_templates config mc w = Some (r, w)"
  "\<not> (case py_get mc ''audiences'' (JBool False) of Inl e \<Rightarrow> False | Inr f \<Rightarrow> truthy f) \<Longrightarrow>
     \<exists>r. main_audiences config mc w = Some (r, w)"
  "\<not> (case py_get mc ''databases'' (JBool False) of Inl e \<Rightarrow> False | Inr f \<Rightarrow> truthy f) \<Longrightarrow>
     \<exists>r. main_databases set_order lower config mc w = Some (r, w)"
  by (auto simp: main_templates_def main_audiences_def main_databases_def split: sum.splits)

lemma main_all_flags_off:
  assumes "\<not> flag_on config ''templates''" and "\<not> flag_on config ''audiences''"
    and "\<not> flag_on config ''databases''"
  shows "\<exists>r. main set_order lower config w = Some (r, w)"
proof (cases "validate_config config")
  case (Inl e)
  then show ?thesis by (simp add: main_def)
next
  case v: (Inr u)
  show ?thesis
  proof (cases "py_get config ''migrating'' (JObj [])")
    case (Inl e)
    then show ?thesis using v by (simp add: main_def)
  next
    case (Inr mc)
    obtain r1 where 1: "main_templates config mc w = Some (r1, w)"
      using flags_off_flow(1)[of mc config w] assms(1) Inr by (auto simp: flag_on_def)
    obtain r2 where 2: "main_audiences config mc w = Some (r2, w)"
      using flags_off_flow(2)[of mc config w] assms(2) Inr by (auto simp: flag_on_def)
    obtain r3 where 3: "main_databases set_order lower config mc w = Some (r3, w)"
      using flags_off_flow(3)[of mc set_order lower config w] assms(3) Inr by (auto simp: flag_on_def)
    show ?thesis using v Inr 1 2 3 by (simp add: main_def split: sum.splits)
  qed
qed

text \<open>
  Claim C10. When no flag is on, and in particular when the configuration has no
  \<open>migrating\<close> section, \<open>main\<close> ends in the world it started in: no request, no line
  printed. In every run of \<open>main\<close> that ends, each request made is addressed to the endpoint
  of a flow whose flag is present and truthy, so a flow whose flag is absent or falsy makes
  no listing, fetch or create call.
\<close>

theorem skipped_flows_send_nothing:
  "(\<not> flag_on config ''templates'' \<and> \<not> flag_on config ''audiences''
      \<and> \<not> flag_on config ''databases'' \<longrightarrow>
      (\<exists>r. main set_order lower config w = Some (r, w)))
   \<and> (py_in ''migrating'' config = Inr False \<longrightarrow> (\<exists>r. main set_order lower config w = Some (r, w)))
   \<and> (\<forall>r w'. main set_order lower config w = Some (r, w') \<longrightarrow>
        (\<exists>ex. exchanges w' = exchanges w @ ex
           \<and> (\<forall>x\<in>set ex.
                 (request_endpoint (fst x) = Some (ENDPOINTS Templates)
                    \<and> flag_on config ''templates'')
               \<or> (request_endpoint (fst x) = Some (ENDPOINTS Audiences)
                    \<and> flag_on config ''audiences'')
               \<or> (request_endpoint (fst x) = Some (ENDPOINTS Connections)
                    \<and> flag_on config ''databases''))))"
proof (intro conjI impI allI)
  assume "\<not> flag_on config ''templates'' \<and> \<not> flag_on config ''audiences''
      \<and> \<not> flag_on config ''databases''"
  then show "\<exists>r. main set_order lower config w = Some (r, w)"
    using main_all_flags_off by blast
next
  assume a: "py_in ''migrating'' config = Inr False"
  have "\<not> flag_on config flow" for flow
  proof (cases config)
    case (JObj kvs)
    then have "map_of kvs ''migrating'' = None" using a by simp
    then show ?thesis by (simp add: flag_on_def JObj)
  qed (simp_all add: flag_on_def)
  then show "\<exists>r. main set_order lower config w = Some (r, w)"
    using main_all_flags_off by blast
next
  fix r w'
  assume m: "main set_order lower config w = Some (r, w')"
  let ?ok = "\<lambda>x. (request_endpoint (fst x) = Some (ENDPOINTS Templates)
                    \<and> flag_on config ''templates'')
               \<or> (request_endpoint (fst x) = Some (ENDPOINTS Audiences)
                    \<and> flag_on config ''audiences'')
               \<or> (request_endpoint (fst x) = Some (ENDPOINTS Connections)
                    \<and> flag_on config ''databases'')"
  let ?good = "\<lambda>v v'. \<exists>ex. exchanges v' = exchanges v @ ex \<and> (\<forall>x\<in>set ex. ?ok x)"
  have refl: "?good v v" for v by simp
  have trans: "?good a c" if "?good a b" "?good b c" for a b c
  proof -
    from that obtain e1 e2 where "exchanges b = exchanges a @ e1" "\<forall>x\<in>set e1. ?ok x"
      "exchanges c = exchanges b @ e2" "\<forall>x\<in>set e2. ?ok x" by blast
    then have "exchanges c = exchanges a @ (e1 @ e2) \<and> (\<forall>x\<in>set (e1 @ e2). ?ok x)" by auto
    then show ?thesis by blast
  qed
  from main_cases[OF m] show "?good w w'"
  proof (elim disjE exE conjE)
    assume "w' = w"
    then show ?thesis by simp
  next
    fix mc r1 w1
    assume mc: "py_get config ''migrating'' (JObj []) = Inr mc"
      and t: "main_templates config mc w = Some (r1, w1)"
    have fl: "flag_on config flow =
        (case py_get mc flow (JBool False) of Inl e \<Rightarrow> False | Inr f \<Rightarrow> truthy f)" for flow
      using mc by (simp add: flag_on_def)
    have g1: "?good w w1"
      using main_templates_calls[OF t] unfolding fl[symmetric] calls_only_def by auto
    {
      assume "w' = w1"
      then show ?thesis using g1 by simp
    next
      fix r2 w2
      assume a: "main_audiences config mc w1 = Some (r2, w2)"
      have g2: "?good w1 w2"
        using main_audiences_calls[OF a] unfolding fl[symmetric] calls_only_def by auto
      {
        assume "w' = w2"
        then show ?thesis using trans[OF g1 g2] by simp
      next
        assume d: "main_databases set_order lower config mc w2 = Some (r, w')"
        have g3: "?good w2 w'"
          using main_databases_calls[OF d] unfolding fl[symmetric] calls_only_def by auto
        show ?thesis using trans[OF trans[OF g1 g2] g3] .
      }
    }
  qed
qed

lemma demo_validate: "validate_config (demo_config extra) = Inr ()"
  by (simp add: demo_config_def demo_source_def demo_destination_def validate_config_def
      required_sections_def required_fields_def ebind_def)

text \<open>
  With the templates flag false nothing happens; with the audiences flag alone the run
  makes requests, all of them to the audiences endpoint.
\<close>

theorem skipped_flows_send_nothing_witness:
  "(\<exists>r. main id ascii_lower (flagged_config [(''templates'', JBool False)]) (new_world one_audience_run) =
         Some (r, new_world one_audience_run))
   \<and> (\<exists>w'. main id ascii_lower (flagged_config [(''audiences'', JBool True)]) (new_world one_audience_run) =
           Some (Inr (), w')
         \<and> exchanges w' \<noteq> []
         \<and> (\<forall>x\<in>set (exchanges w'). request_endpoint (fst x) = Some ''beta/audience/query''))"
proof -
  let ?off = "flagged_config [(''templates'', JBool False)]"
  let ?on = "flagged_config [(''audiences'', JBool True)]"
  let ?w = "new_world one_audience_run"
  have off: "\<not> flag_on ?off ''templates'' \<and> \<not> flag_on ?off ''audiences''
      \<and> \<not> flag_on ?off ''databases''"
    by (simp add: flag_on_def flagged_config_def demo_config_def)
  have on: "\<not> flag_on ?on ''templates''" "flag_on ?on ''audiences''" "\<not> flag_on ?on ''databases''"
    by (simp_all add: flag_on_def flagged_config_def demo_config_def)
  let ?mc = "JObj [(''audiences'', JBool True)]"
  have v: "validate_config ?on = Inr ()"
    by (simp add: flagged_config_def demo_validate)
  have mc: "py_get ?on ''migrating'' (JObj []) = Inr ?mc"
    by (simp add: flagged_config_def demo_config_def)
  have t: "main_templates ?on ?mc v = Some (Inr (), v)" for v
    by (simp add: main_templates_def)
  have d: "main_databases id ascii_lower ?on ?mc v = Some (Inr (), v)" for v
    by (simp add: main_databases_def)
  have a: "\<exists>w'. main_audiences ?on ?mc ?w = Some (Inr (), w') \<and> exchanges w' \<noteq> []"
    by (simp add: main_audiences_def fetch_audiences_def flagged_config_def
        demo_config_def demo_source_def demo_destination_def fetch_paginated_data_def
        prepare_headers_def ebind_def fetch_loop.simps send_request_eq print_def new_world_def
        script_def one_audience_run_def create_audience_def)
  have "\<exists>w'. main id ascii_lower ?on ?w = Some (Inr (), w') \<and> exchanges w' \<noteq> []"
    using a by (auto simp: main_def v mc t d)
  then obtain w' where run: "main id ascii_lower ?on ?w = Some (Inr (), w')" "exchanges w' \<noteq> []"
    by blast
  have 1: "\<exists>r. main id ascii_lower ?off ?w = Some (r, ?w)"
    using skipped_flows_send_nothing[of ?off id ascii_lower ?w] off by blast
  have "\<exists>ex. exchanges w' = exchanges ?w @ ex
           \<and> (\<forall>x\<in>set ex.
                 (request_endpoint (fst x) = Some (ENDPOINTS Templates)
                    \<and> flag_on ?on ''templates'')
               \<or> (request_endpoint (fst x) = Some (ENDPOINTS Audiences)
                    \<and> flag_on ?on ''audiences'')
               \<or> (request_endpoint (fst x) = Some (ENDPOINTS Connections)
                    \<and> flag_on ?on ''databases''))"
    using skipped_flows_send_nothing[of ?on id ascii_lower ?w] run(1) by blast
  then have 2: "\<forall>x\<in>set (exchanges w'). request_endpoint (fst x) = Some ''beta/audience/query''"
    using on by (auto simp: new_world_def)
  show ?thesis using 1 2 run by blast
qed

section \<open>The reconciler: properties\<close>

lemma last_named_Cons:
  "last_named lower n (db # dbs) =
     (case last_named lower n dbs of
        Some d \<Rightarrow> Some d
      | None \<Rightarrow> if norm_name lower db = n then Some db else None)"
  by (auto simp: last_named_def split: list.splits)

lemma last_named_Some:
  "last_named lower n dbs = Some d \<Longrightarrow> d \<in> set dbs \<and> norm_name lower d = n"
proof -
  assume a: "last_named lower n dbs = Some d"
  then have ne: "filter (\<lambda>db. norm_name lower db = n) dbs \<noteq> []"
    and d: "d = last (filter (\<lambda>db. norm_name lower db = n) dbs)"
    by (auto simp: last_named_def split: list.splits)
  from last_in_set[OF ne] show ?thesis unfolding d[symmetric] by simp
qed

lemma last_named_None: "last_named lower n dbs = None \<longleftrightarrow> n \<notin> norm_name lower ` set dbs"
proof -
  have "last_named lower n dbs = None \<longleftrightarrow> filter (\<lambda>db. norm_name lower db = n) dbs = []"
    by (simp add: last_named_def split: list.splits)
  also have "\<dots> \<longleftrightarrow> n \<notin> norm_name lower ` set dbs"
    by (auto simp: filter_empty_conv)
  finally show ?thesis .
qed

lemma named_lower:
  "named db \<Longrightarrow> ebind (py_getitem db ''name'') (py_lower lower) = Inr (norm_name lower db)"
  by (cases db) (auto simp: ebind_def split: option.splits json.splits)

lemma name_map_spec:
  assumes "\<forall>db\<in>set dbs. named db" and "distinct (map fst acc)"
  shows "\<exists>m. name_map lower dbs acc = Inr m \<and> distinct (map fst m)
     \<and> (\<forall>n. map_of m n = (case last_named lower n dbs of None \<Rightarrow> map_of acc n | Some d \<Rightarrow> Some d))"
  using assms
proof (induction dbs arbitrary: acc)
  case Nil
  then show ?case by (simp add: last_named_def)
next
  case (Cons db dbs)
  let ?acc = "AList.update (norm_name lower db) db acc"
  have step: "name_map lower (db # dbs) acc = name_map lower dbs ?acc"
    using named_lower[of db lower] Cons.prems(1)
    by (cases "py_getitem db ''name''") (auto simp: ebind_def split: sum.splits)
  have "distinct (map fst ?acc)" using Cons.prems(2) by (simp add: distinct_update)
  with Cons.IH[of ?acc] Cons.prems(1) obtain m where m: "name_map lower dbs ?acc = Inr m"
    "distinct (map fst m)"
    "\<forall>n. map_of m n = (case last_named lower n dbs of None \<Rightarrow> map_of ?acc n | Some d \<Rightarrow> Some d)"
    by auto
  have "map_of m n = (case last_named lower n (db # dbs) of None \<Rightarrow> map_of acc n | Some d \<Rightarrow> Some d)"
    for n
    using m(3) by (auto simp: last_named_Cons update_conv' split: option.splits)
  then show ?case using step m(1,2) by simp
qed

lemma name_map_empty:
  assumes "\<forall>db\<in>set dbs. named db"
  shows "\<exists>m. name_map lower dbs [] = Inr m \<and> distinct (map fst m)
     \<and> (\<forall>n. map_of m n = last_named lower n dbs) \<and> set (map fst m) = norm_name lower ` set dbs"
proof -
  from name_map_spec[OF assms, of "[]"] obtain m where m0: "name_map lower dbs [] = Inr m"
    "distinct (map fst m)"
    "\<forall>n. map_of m n = (case last_named lower n dbs of None \<Rightarrow> map_of [] n | Some d \<Rightarrow> Some d)"
    by auto
  have "map_of m n = last_named lower n dbs" for n
    using m0(3)[rule_format, of n] by (cases "last_named lower n dbs") simp_all
  with m0 have m: "name_map lower dbs [] = Inr m"
    "distinct (map fst m)" "\<forall>n. map_of m n = last_named lower n dbs"
    by auto
  have "n \<in> set (map fst m) \<longleftrightarrow> n \<in> norm_name lower ` set dbs" for n
  proof -
    have "n \<in> set (map fst m) \<longleftrightarrow> map_of m n \<noteq> None"
      by (metis map_of_eq_None_iff set_map)
    then show ?thesis using m(3) last_named_None[of lower n dbs] by simp
  qed
  then have "set (map fst m) = norm_name lower ` set dbs" by blast
  then show ?thesis using m by blast
qed

lemma merge_payload_objects:
  "\<exists>p. merge_payload (JObj src) (JObj loc) = Inr p
     \<and> map_of p = (map_of src)(''password'' \<mapsto> field_or_null loc ''password'',
                               ''port'' \<mapsto> field_or_null loc ''port'',
                               ''host'' \<mapsto> field_or_null loc ''host'',
                               ''user'' \<mapsto> field_or_null loc ''user'')"
  by (simp add: merge_payload_def ebind_def field_or_null_def update_conv'
      split: option.splits)

lemma sync_loop_spec:
  assumes "\<forall>n\<in>set names. \<exists>src loc. map_of sm n = Some (JObj src) \<and> map_of cm n = Some (JObj loc)"
  shows "\<exists>w' ex. sync_loop sm cm h u names w = (Inr (), w')
     \<and> exchanges w' = exchanges w @ ex
     \<and> map fst ex = map (\<lambda>n. connection_request u h (payload_for sm cm n)) names
     \<and> responses w' = responses w"
  using assms
proof (induction names arbitrary: w)
  case Nil
  then show ?case by simp
next
  case (Cons n names)
  obtain src loc where s: "map_of sm n = Some (JObj src)" and c: "map_of cm n = Some (JObj loc)"
    using Cons.prems by auto
  obtain p where p: "merge_payload (JObj src) (JObj loc) = Inr p"
    using merge_payload_objects by blast
  have pf: "payload_for sm cm n = p" by (simp add: payload_for_def s c p)
  let ?out = "responses w (length (exchanges w))"
  let ?w1 = "w\<lparr>exchanges := exchanges w @ [(connection_request u h p, ?out)],
        printed := printed w @ transport_notices ?out\<rparr>"
  let ?w2 = "print (if truthy (returned ?out) then ConnectionCreated n else ConnectionFailed n) ?w1"
  have step: "sync_loop sm cm h u (n # names) w = sync_loop sm cm h u names ?w2"
    by (simp add: s c p send_request_eq connection_request_def)
  from Cons.IH[of ?w2] Cons.prems obtain w' ex where
    "sync_loop sm cm h u names ?w2 = (Inr (), w')" "exchanges w' = exchanges ?w2 @ ex"
    "map fst ex = map (\<lambda>n. connection_request u h (payload_for sm cm n)) names"
    "responses w' = responses ?w2"
    by auto
  then have "sync_loop sm cm h u (n # names) w = (Inr (), w')
     \<and> exchanges w' = exchanges w @ ((connection_request u h p, ?out) # ex)
     \<and> map fst ((connection_request u h p, ?out) # ex) =
         map (\<lambda>n. connection_request u h (payload_for sm cm n)) (n # names)
     \<and> responses w' = responses w"
    using step pf by (simp add: print_def)
  then show ?case by blast
qed

lemma norm_name_merged:
  assumes "named (JObj src)"
    and "map_of p = (map_of src)(''password'' \<mapsto> a, ''port'' \<mapsto> b, ''host'' \<mapsto> c, ''user'' \<mapsto> d)"
  shows "norm_name lower (JObj p) = norm_name lower (JObj src)"
proof -
  have "map_of p ''name'' = map_of src ''name''" using assms(2) by simp
  then show ?thesis by simp
qed

lemma sync_connections_spec:
  assumes "\<forall>db\<in>set db_payload. named db"
    and "py_get config ''databases'' (JArr []) = Inr (JArr locals)"
    and "\<forall>db\<in>set locals. named db"
    and "py_getitem config ''destination'' = Inr (JObj dst)"
    and "map_of dst ''url'' = Some base"
    and "\<forall>xs. distinct xs \<longrightarrow> set (set_order xs) = set xs \<and> distinct (set_order xs)"
  shows "\<exists>names pl w' ex h. sync_connections set_order lower db_payload config w = (Inr (), w')
     \<and> exchanges w' = exchanges w @ ex
     \<and> prepare_headers config ''destination'' = Inr h
     \<and> map fst ex =
         map (\<lambda>n. connection_request (get_endpoint base Connections) h (pl n)) names
     \<and> distinct names
     \<and> set names = norm_name lower ` set db_payload \<inter> norm_name lower ` set locals
     \<and> (\<forall>n\<in>set names. \<exists>src loc.
            last_named lower n db_payload = Some (JObj src)
          \<and> last_named lower n locals = Some (JObj loc)
          \<and> map_of (pl n) =
               (map_of src)(''password'' \<mapsto> field_or_null loc ''password'',
                            ''port'' \<mapsto> field_or_null loc ''port'',
                            ''host'' \<mapsto> field_or_null loc ''host'',
                            ''user'' \<mapsto> field_or_null loc ''user'')
          \<and> norm_name lower (JObj (pl n)) = n)"
proof -
  obtain kvs where cfg: "config = JObj kvs" "map_of kvs ''destination'' = Some (JObj dst)"
    using assms(4) by (cases config) (auto split: option.splits)
  obtain sm where sm: "name_map lower db_payload [] = Inr sm" "distinct (map fst sm)"
    "\<forall>n. map_of sm n = last_named lower n db_payload" "set (map fst sm) = norm_name lower ` set db_payload"
    using name_map_empty[OF assms(1)] by blast
  obtain cm where cm: "name_map lower locals [] = Inr cm" "distinct (map fst cm)"
    "\<forall>n. map_of cm n = last_named lower n locals" "set (map fst cm) = norm_name lower ` set locals"
    using name_map_empty[OF assms(3)] by blast
  obtain h where h: "prepare_headers config ''destination'' = Inr h"
    using prepare_headers_section[OF cfg(2)] cfg(1) by simp
  let ?cs = "common_names sm cm"
  let ?names = "set_order ?cs"
  let ?u = "get_endpoint base Connections"
  have dcs: "distinct ?cs" using sm(2) by (simp add: common_names_def distinct_map_filter)
  have "set ?cs = set (map fst sm) \<inter> set (map fst cm)"
    by (auto simp: common_names_def map_of_eq_None_iff)
  then have scs: "set ?cs = norm_name lower ` set db_payload \<inter> norm_name lower ` set locals"
    using sm(4) cm(4) by simp
  have names: "distinct ?names" "set ?names = norm_name lower ` set db_payload \<inter> norm_name lower ` set locals"
    using assms(6) dcs scs by auto
  have rec: "\<exists>src loc. last_named lower n db_payload = Some (JObj src)
          \<and> last_named lower n locals = Some (JObj loc)
          \<and> map_of sm n = Some (JObj src) \<and> map_of cm n = Some (JObj loc)
          \<and> named (JObj src) \<and> norm_name lower (JObj src) = n" if "n \<in> set ?names" for n
  proof -
    from that names(2) have "last_named lower n db_payload \<noteq> None" "last_named lower n locals \<noteq> None"
      by (simp_all add: last_named_None)
    then obtain s l where sl: "last_named lower n db_payload = Some s" "last_named lower n locals = Some l"
      by auto
    from last_named_Some[OF sl(1)] assms(1) have s: "named s" "norm_name lower s = n" by auto
    from last_named_Some[OF sl(2)] assms(3) have l: "named l" by auto
    obtain src where src: "s = JObj src" using s(1) by (cases s) auto
    obtain loc where loc: "l = JObj loc" using l by (cases l) auto
    show ?thesis using sl s src loc sm(3) cm(3) by auto
  qed
  then have pre: "\<forall>n\<in>set ?names.
      \<exists>src loc. map_of sm n = Some (JObj src) \<and> map_of cm n = Some (JObj loc)"
    by blast
  from sync_loop_spec[OF pre, of h ?u w] obtain w' ex where
    loop: "sync_loop sm cm h ?u ?names w = (Inr (), w')" "exchanges w' = exchanges w @ ex"
    "map fst ex = map (\<lambda>n. connection_request ?u h (payload_for sm cm n)) ?names"
    by blast
  have run: "sync_connections set_order lower db_payload config w = (Inr (), w')"
    using assms(2,5) sm(1) cm(1) h cfg loop(1)
    by (simp add: sync_connections_def ebind_def)
  have each: "\<exists>src loc.
            last_named lower n db_payload = Some (JObj src)
          \<and> last_named lower n locals = Some (JObj loc)
          \<and> map_of (payload_for sm cm n) =
               (map_of src)(''password'' \<mapsto> field_or_null loc ''password'',
                            ''port'' \<mapsto> field_or_null loc ''port'',
                            ''host'' \<mapsto> field_or_null loc ''host'',
                            ''user'' \<mapsto> field_or_null loc ''user'')
          \<and> norm_name lower (JObj (payload_for sm cm n)) = n" if "n \<in> set ?names" for n
  proof -
    from rec[OF that] obtain src loc where r: "last_named lower n db_payload = Some (JObj src)"
      "last_named lower n locals = Some (JObj loc)" "map_of sm n = Some (JObj src)"
      "map_of cm n = Some (JObj loc)" "named (JObj src)" "norm_name lower (JObj src) = n"
      by blast
    obtain p where p: "merge_payload (JObj src) (JObj loc) = Inr p"
      "map_of p = (map_of src)(''password'' \<mapsto> field_or_null loc ''password'',
                               ''port'' \<mapsto> field_or_null loc ''port'',
                               ''host'' \<mapsto> field_or_null loc ''host'',
                               ''user'' \<mapsto> field_or_null loc ''user'')"
      using merge_payload_objects by blast
    have pf: "payload_for sm cm n = p" by (simp add: payload_for_def r(3,4) p(1))
    have nn: "norm_name lower (JObj p) = n" using norm_name_merged[OF r(5) p(2)] r(6) by simp
    show ?thesis
      apply (rule exI[of _ src], rule exI[of _ loc])
      unfolding pf using r(1,2) p(2) nn by (intro conjI)
  qed
  show ?thesis
    apply (rule exI[of _ ?names])
    apply (rule exI[of _ "payload_for sm cm"])
    apply (rule exI[of _ w'])
    apply (rule exI[of _ ex])
    apply (rule exI[of _ h])
    using run loop(2,3) h names each by (intro conjI ballI)
qed

lemma connection_request_fields:
  assumes "map fst ex = map (\<lambda>n. connection_request u h (pl n)) names"
  shows "map (\<lambda>x. req_json (fst x)) ex = map (\<lambda>n. JObj (pl n)) names"
    and "\<forall>x\<in>set ex. req_method (fst x) = POST \<and> req_url (fst x) = u"
proof -
  have "map (\<lambda>x. req_json (fst x)) ex = map req_json (map fst ex)" by simp
  also have "\<dots> = map (\<lambda>n. JObj (pl n)) names"
    unfolding assms by (simp add: connection_request_def)
  finally show "map (\<lambda>x. req_json (fst x)) ex = map (\<lambda>n. JObj (pl n)) names" .
  have "\<forall>r\<in>set (map fst ex). req_method r = POST \<and> req_url r = u"
    unfolding assms by (simp add: connection_request_def)
  then show "\<forall>x\<in>set ex. req_method (fst x) = POST \<and> req_url (fst x) = u" by simp
qed

lemma last_named_last:
  "last_named lower n dbs = Some d \<Longrightarrow> d = last (filter (\<lambda>db. norm_name lower db = n) dbs)"
  by (auto simp: last_named_def split: list.splits)

text \<open>
  Claim C2. Let the source records and the local \<open>databases\<close> entries be connection
  records, let the set of common names be met in any order without repetition, and let
  \<open>lower\<close> be any function (the program's is \<open>str.lower\<close>). Then
  \<open>sync_connections\<close> sends one create request for each normalised name that occurs in
  both collections and for no other name. The payload for a name has the fields of the
  source record of that name, with \<open>password\<close>, \<open>port\<close>, \<open>host\<close> and \<open>user\<close> set to
  the values of the local record of that name.
\<close>

theorem reconciler_merges_common_names:
  assumes "\<forall>db\<in>set db_payload. named db"
    and "py_get config ''databases'' (JArr []) = Inr (JArr locals)"
    and "\<forall>db\<in>set locals. named db"
    and "py_getitem config ''destination'' = Inr (JObj dst)"
    and "map_of dst ''url'' = Some base"
    and "\<forall>xs. distinct xs \<longrightarrow> set (set_order xs) = set xs \<and> distinct (set_order xs)"
  shows "\<exists>names pl w' ex. sync_connections set_order lower db_payload config w = (Inr (), w')
     \<and> exchanges w' = exchanges w @ ex
     \<and> map (\<lambda>x. req_json (fst x)) ex = map (\<lambda>n. JObj (pl n)) names
     \<and> (\<forall>x\<in>set ex. req_method (fst x) = POST
            \<and> request_endpoint (fst x) = Some (ENDPOINTS Connections))
     \<and> distinct names
     \<and> set names = norm_name lower ` set db_payload \<inter> norm_name lower ` set locals
     \<and> (\<forall>n\<in>set names. \<exists>src loc.
            last_named lower n db_payload = Some (JObj src)
          \<and> last_named lower n locals = Some (JObj loc)
          \<and> map_of (pl n) =
               (map_of src)(''password'' \<mapsto> field_or_null loc ''password'',
                            ''port'' \<mapsto> field_or_null loc ''port'',
                            ''host'' \<mapsto> field_or_null loc ''host'',
                            ''user'' \<mapsto> field_or_null loc ''user''))"
proof -
  from sync_connections_spec[OF assms, of lower w]
  show ?thesis
  proof (elim exE conjE)
    fix names pl w' ex h
    assume r: "sync_connections set_order lower db_payload config w = (Inr (), w')"
      "exchanges w' = exchanges w @ ex"
      "map fst ex = map (\<lambda>n. connection_request (get_endpoint base Connections) h (pl n)) names"
      "distinct names" "set names = norm_name lower ` set db_payload \<inter> norm_name lower ` set locals"
    assume each: "\<forall>n\<in>set names. \<exists>src loc.
            last_named lower n db_payload = Some (JObj src)
          \<and> last_named lower n locals = Some (JObj loc)
          \<and> map_of (pl n) =
               (map_of src)(''password'' \<mapsto> field_or_null loc ''password'',
                            ''port'' \<mapsto> field_or_null loc ''port'',
                            ''host'' \<mapsto> field_or_null loc ''host'',
                            ''user'' \<mapsto> field_or_null loc ''user'')
          \<and> norm_name lower (JObj (pl n)) = n"
    have b: "map (\<lambda>x. req_json (fst x)) ex = map (\<lambda>n. JObj (pl n)) names"
      using connection_request_fields(1)[OF r(3)] .
    have e: "\<forall>x\<in>set ex. req_method (fst x) = POST
            \<and> request_endpoint (fst x) = Some (ENDPOINTS Connections)"
      using connection_request_fields(2)[OF r(3)]
      by (simp add: request_endpoint_def get_endpoint_def)
    have each': "\<forall>n\<in>set names. \<exists>src loc.
            last_named lower n db_payload = Some (JObj src)
          \<and> last_named lower n locals = Some (JObj loc)
          \<and> map_of (pl n) =
               (map_of src)(''password'' \<mapsto> field_or_null loc ''password'',
                            ''port'' \<mapsto> field_or_null loc ''port'',
                            ''host'' \<mapsto> field_or_null loc ''host'',
                            ''user'' \<mapsto> field_or_null loc ''user'')"
    proof
      fix n assume "n \<in> set names"
      with each obtain src loc where "last_named lower n db_payload = Some (JObj src)
          \<and> last_named lower n locals = Some (JObj loc)
          \<and> map_of (pl n) =
               (map_of src)(''password'' \<mapsto> field_or_null loc ''password'',
                            ''port'' \<mapsto> field_or_null loc ''port'',
                            ''host'' \<mapsto> field_or_null loc ''host'',
                            ''user'' \<mapsto> field_or_null loc ''user'')
          \<and> norm_name lower (JObj (pl n)) = n"
        by meson
      then show "\<exists>src loc.
            last_named lower n db_payload = Some (JObj src)
          \<and> last_named lower n locals = Some (JObj loc)
          \<and> map_of (pl n) =
               (map_of src)(''password'' \<mapsto> field_or_null loc ''password'',
                            ''port'' \<mapsto> field_or_null loc ''port'',
                            ''host'' \<mapsto> field_or_null loc ''host'',
                            ''user'' \<mapsto> field_or_null loc ''user'')"
        by (intro exI[of _ src] exI[of _ loc]) simp
    qed
    show ?thesis
      apply (rule exI[of _ names], rule exI[of _ pl], rule exI[of _ w'], rule exI[of _ ex])
      using r(1,2) b e r(4,5) each' by (intro conjI)
  qed
qed

lemma lower_examples:
  "ascii_lower ''Alpha'' = ''alpha''" "ascii_lower ''beta'' = ''beta''"
  "ascii_lower ''BETA'' = ''beta''" "ascii_lower ''Gamma'' = ''gamma''"
  "ascii_lower ''Beta'' = ''beta''" "ascii_lower ''gamma'' = ''gamma''"
  "ascii_lower ''Delta'' = ''delta''"
  by (simp_all add: ascii_lower_def ascii_lower_char_def)

lemma demo_norm_names:
  "map (norm_name ascii_lower) demo_sources = [''alpha'', ''beta'', ''beta'', ''gamma'']"
  "map (norm_name ascii_lower) demo_locals = [''beta'', ''gamma'', ''delta'']"
  by (simp_all add: demo_sources_def demo_locals_def lower_examples)

lemma demo_names:
  "norm_name ascii_lower ` set demo_sources \<inter> norm_name ascii_lower ` set demo_locals = {''beta'', ''gamma''}"
proof -
  have "norm_name ascii_lower ` set demo_sources = set (map (norm_name ascii_lower) demo_sources)"
    "norm_name ascii_lower ` set demo_locals = set (map (norm_name ascii_lower) demo_locals)" by simp_all
  then show ?thesis unfolding demo_norm_names by auto
qed

text \<open>Sources alpha, beta (twice) and gamma, local entries beta, gamma and delta: two requests.\<close>

theorem reconciler_merges_common_names_witness:
  "\<exists>w'. sync_connections rev ascii_lower demo_sources demo_sync_config (new_world []) = (Inr (), w')
      \<and> length (exchanges w') = 2"
proof -
  have 1: "\<forall>db\<in>set demo_sources. named db" by (simp add: demo_sources_def)
  have 2: "py_get demo_sync_config ''databases'' (JArr []) = Inr (JArr demo_locals)"
    by (simp add: demo_sync_config_def demo_config_def)
  have 3: "\<forall>db\<in>set demo_locals. named db" by (simp add: demo_locals_def)
  have 4: "py_getitem demo_sync_config ''destination'' = Inr (JObj demo_destination)"
    by (simp add: demo_sync_config_def demo_config_def)
  have 5: "map_of demo_destination ''url'' = Some (JStr ''https://dst/'')"
    by (simp add: demo_destination_def)
  have 6: "\<forall>xs::string list. distinct xs \<longrightarrow> set (rev xs) = set xs \<and> distinct (rev xs)"
    by simp
  from reconciler_merges_common_names[OF 1 2 3 4 5 6, of ascii_lower "new_world []"]
  show ?thesis
  proof (elim exE conjE)
    fix names pl w' ex
    assume r: "sync_connections rev ascii_lower demo_sources demo_sync_config (new_world []) = (Inr (), w')"
      "exchanges w' = exchanges (new_world []) @ ex"
      "map (\<lambda>x. req_json (fst x)) ex = map (\<lambda>n. JObj (pl n)) names"
      "distinct names" "set names = norm_name ascii_lower ` set demo_sources \<inter> norm_name ascii_lower ` set demo_locals"
    have "length names = card {''beta'', ''gamma''}"
      using distinct_card[OF r(4)] r(5) demo_names by simp
    then have "length names = 2" by simp
    moreover have "length ex = length names"
      using arg_cong[OF r(3), of length] by simp
    ultimately have "length (exchanges w') = 2" using r(2) by (simp add: new_world_def)
    with r(1) show ?thesis by blast
  qed
qed

lemma secret_value:
  assumes "f \<in> {''password'', ''port'', ''host'', ''user''}"
    and "map_of p = (map_of src)(''password'' \<mapsto> field_or_null loc ''password'',
                               ''port'' \<mapsto> field_or_null loc ''port'',
                               ''host'' \<mapsto> field_or_null loc ''host'',
                               ''user'' \<mapsto> field_or_null loc ''user'')"
  shows "map_of p f = Some (field_or_null loc f)"
  using assms(1) unfolding assms(2) by auto

text \<open>
  Claim C8. For any function \<open>lower\<close>: when the local record of a common name (the last
  local entry of that normalised name) has no value for one of the fields
  \<open>password\<close>, \<open>port\<close>, \<open>host\<close>, \<open>user\<close>, \<open>sync_connections\<close> still ends normally
  and still sends the create request for that name; in its payload the field is present and
  null.
\<close>

theorem missing_secret_is_sent_as_null:
  assumes "\<forall>db\<in>set db_payload. named db"
    and "py_get config ''databases'' (JArr []) = Inr (JArr locals)"
    and "\<forall>db\<in>set locals. named db"
    and "py_getitem config ''destination'' = Inr (JObj dst)"
    and "map_of dst ''url'' = Some base"
    and "\<forall>xs. distinct xs \<longrightarrow> set (set_order xs) = set xs \<and> distinct (set_order xs)"
    and "n \<in> norm_name lower ` set db_payload \<inter> norm_name lower ` set locals"
    and "last_named lower n locals = Some (JObj loc)"
    and "f \<in> {''password'', ''port'', ''host'', ''user''}"
    and "map_of loc f = None"
  shows "\<exists>w' ex x p. sync_connections set_order lower db_payload config w = (Inr (), w')
     \<and> exchanges w' = exchanges w @ ex
     \<and> x \<in> set ex \<and> req_method (fst x) = POST \<and> req_json (fst x) = JObj p
     \<and> norm_name lower (JObj p) = n \<and> map_of p f = Some JNull"
proof -
  from sync_connections_spec[OF assms(1-6), of lower w]
  show ?thesis
  proof (elim exE conjE)
    fix names pl w' ex h
    assume r: "sync_connections set_order lower db_payload config w = (Inr (), w')"
      "exchanges w' = exchanges w @ ex"
      "map fst ex = map (\<lambda>n. connection_request (get_endpoint base Connections) h (pl n)) names"
      "distinct names" "set names = norm_name lower ` set db_payload \<inter> norm_name lower ` set locals"
    assume each: "\<forall>n\<in>set names. \<exists>src loc.
            last_named lower n db_payload = Some (JObj src)
          \<and> last_named lower n locals = Some (JObj loc)
          \<and> map_of (pl n) =
               (map_of src)(''password'' \<mapsto> field_or_null loc ''password'',
                            ''port'' \<mapsto> field_or_null loc ''port'',
                            ''host'' \<mapsto> field_or_null loc ''host'',
                            ''user'' \<mapsto> field_or_null loc ''user'')
          \<and> norm_name lower (JObj (pl n)) = n"
    have n: "n \<in> set names" using assms(7) r(5) by simp
    with each obtain src loc' where sl: "last_named lower n db_payload = Some (JObj src)
          \<and> last_named lower n locals = Some (JObj loc')
          \<and> map_of (pl n) =
               (map_of src)(''password'' \<mapsto> field_or_null loc' ''password'',
                            ''port'' \<mapsto> field_or_null loc' ''port'',
                            ''host'' \<mapsto> field_or_null loc' ''host'',
                            ''user'' \<mapsto> field_or_null loc' ''user'')
          \<and> norm_name lower (JObj (pl n)) = n"
      by meson
    then have loc: "loc' = loc" using assms(8) by simp
    have "map_of (pl n) f = Some (field_or_null loc f)"
      using secret_value[OF assms(9), of "pl n" src loc] sl loc by simp
    then have null: "map_of (pl n) f = Some JNull"
      using assms(10) by (simp add: field_or_null_def)
    have "connection_request (get_endpoint base Connections) h (pl n) \<in> set (map fst ex)"
      unfolding r(3) using n by simp
    then obtain x where x: "x \<in> set ex"
      "fst x = connection_request (get_endpoint base Connections) h (pl n)"
      by auto
    have m: "req_method (fst x) = POST" "req_json (fst x) = JObj (pl n)"
      using x(2) by (simp_all add: connection_request_def)
    have nn: "norm_name lower (JObj (pl n)) = n"
      by (rule sl[THEN conjunct2, THEN conjunct2, THEN conjunct2])
    show ?thesis
      apply (rule exI[of _ w'], rule exI[of _ ex], rule exI[of _ x], rule exI[of _ "pl n"])
      using r(1,2) x(1) m nn null by (intro conjI)
  qed
qed

lemma demo_last_beta_local: "last_named ascii_lower ''beta'' demo_locals = Some (JObj demo_beta_local)"
  by (simp add: last_named_def demo_locals_def demo_beta_local_def lower_examples)

text \<open>The local entry for beta has no password: a payload with a null password is sent.\<close>

theorem missing_secret_is_sent_as_null_witness:
  "\<exists>w' x p. sync_connections rev ascii_lower demo_sources demo_sync_config (new_world []) = (Inr (), w')
      \<and> x \<in> set (exchanges w') \<and> req_json (fst x) = JObj p
      \<and> map_of p ''password'' = Some JNull"
proof -
  have 1: "\<forall>db\<in>set demo_sources. named db" by (simp add: demo_sources_def)
  have 2: "py_get demo_sync_config ''databases'' (JArr []) = Inr (JArr demo_locals)"
    by (simp add: demo_sync_config_def demo_config_def)
  have 3: "\<forall>db\<in>set demo_locals. named db" by (simp add: demo_locals_def)
  have 4: "py_getitem demo_sync_config ''destination'' = Inr (JObj demo_destination)"
    by (simp add: demo_sync_config_def demo_config_def)
  have 5: "map_of demo_destination ''url'' = Some (JStr ''https://dst/'')"
    by (simp add: demo_destination_def)
  have 6: "\<forall>xs::string list. distinct xs \<longrightarrow> set (rev xs) = set xs \<and> distinct (rev xs)"
    by simp
  have 7: "''beta'' \<in> norm_name ascii_lower ` set demo_sources \<inter> norm_name ascii_lower ` set demo_locals"
    by (simp add: demo_names)
  have 9: "''password'' \<in> {''password'', ''port'', ''host'', ''user''}" by simp
  have 10: "map_of demo_beta_local ''password'' = None" by (simp add: demo_beta_local_def)
  from missing_secret_is_sent_as_null[OF 1 2 3 4 5 6 7 demo_last_beta_local 9 10,
      of "new_world []"]
  show ?thesis
  proof (elim exE conjE)
    fix w' ex x p
    assume "sync_connections rev ascii_lower demo_sources demo_sync_config (new_world []) = (Inr (), w')"
      "exchanges w' = exchanges (new_world []) @ ex" "x \<in> set ex"
      "req_json (fst x) = JObj p" "map_of p ''password'' = Some JNull"
    then have "sync_connections rev ascii_lower demo_sources demo_sync_config (new_world []) = (Inr (), w')
      \<and> x \<in> set (exchanges w') \<and> req_json (fst x) = JObj p
      \<and> map_of p ''password'' = Some JNull"
      by (simp add: new_world_def)
    then show ?thesis by (intro exI)
  qed
qed

text \<open>
  Claim C9. A run of \<open>sync_connections\<close> sends a create request for every normalised name
  that the two collections share, and no two of its requests carry payloads with the same
  normalised name. When several source records, or several local entries, have the
  normalised name of a payload, the payload is built from the last of them in input order.
\<close>

theorem duplicate_names_keep_last_record:
  assumes "\<forall>db\<in>set db_payload. named db"
    and "py_get config ''databases'' (JArr []) = Inr (JArr locals)"
    and "\<forall>db\<in>set locals. named db"
    and "py_getitem config ''destination'' = Inr (JObj dst)"
    and "map_of dst ''url'' = Some base"
    and "\<forall>xs. distinct xs \<longrightarrow> set (set_order xs) = set xs \<and> distinct (set_order xs)"
  shows "\<exists>w' ex. sync_connections set_order lower db_payload config w = (Inr (), w')
     \<and> exchanges w' = exchanges w @ ex
     \<and> distinct (map (\<lambda>x. norm_name lower (req_json (fst x))) ex)
     \<and> set (map (\<lambda>x. norm_name lower (req_json (fst x))) ex) =
         norm_name lower ` set db_payload \<inter> norm_name lower ` set locals
     \<and> (\<forall>x\<in>set ex. \<exists>p src loc. req_json (fst x) = JObj p
          \<and> norm_name lower (JObj p) \<in> norm_name lower ` set db_payload \<inter> norm_name lower ` set locals
          \<and> JObj src = last (filter (\<lambda>db. norm_name lower db = norm_name lower (JObj p)) db_payload)
          \<and> JObj loc = last (filter (\<lambda>db. norm_name lower db = norm_name lower (JObj p)) locals)
          \<and> map_of p =
               (map_of src)(''password'' \<mapsto> field_or_null loc ''password'',
                            ''port'' \<mapsto> field_or_null loc ''port'',
                            ''host'' \<mapsto> field_or_null loc ''host'',
                            ''user'' \<mapsto> field_or_null loc ''user''))"
proof -
  from sync_connections_spec[OF assms(1-6), of lower w]
  show ?thesis
  proof (elim exE conjE)
    fix names pl w' ex h
    assume r: "sync_connections set_order lower db_payload config w = (Inr (), w')"
      "exchanges w' = exchanges w @ ex"
      "map fst ex = map (\<lambda>n. connection_request (get_endpoint base Connections) h (pl n)) names"
      "distinct names" "set names = norm_name lower ` set db_payload \<inter> norm_name lower ` set locals"
    assume each: "\<forall>n\<in>set names. \<exists>src loc.
            last_named lower n db_payload = Some (JObj src)
          \<and> last_named lower n locals = Some (JObj loc)
          \<and> map_of (pl n) =
               (map_of src)(''password'' \<mapsto> field_or_null loc ''password'',
                            ''port'' \<mapsto> field_or_null loc ''port'',
                            ''host'' \<mapsto> field_or_null loc ''host'',
                            ''user'' \<mapsto> field_or_null loc ''user'')
          \<and> norm_name lower (JObj (pl n)) = n"
    have b: "map (\<lambda>x. req_json (fst x)) ex = map (\<lambda>n. JObj (pl n)) names"
      using connection_request_fields(1)[OF r(3)] .
    have nn: "norm_name lower (JObj (pl n)) = n" if "n \<in> set names" for n
      using each that by meson
    have "map (\<lambda>x. norm_name lower (req_json (fst x))) ex =
          map (norm_name lower) (map (\<lambda>x. req_json (fst x)) ex)" by simp
    also have "\<dots> = map (\<lambda>n. norm_name lower (JObj (pl n))) names" unfolding b by simp
    also have "\<dots> = map (\<lambda>n. n) names" using nn by (intro map_cong) simp_all
    finally have ns: "map (\<lambda>x. norm_name lower (req_json (fst x))) ex = names" by simp
    have d: "distinct (map (\<lambda>x. norm_name lower (req_json (fst x))) ex)"
      unfolding ns using r(4) .
    have c: "set (map (\<lambda>x. norm_name lower (req_json (fst x))) ex) =
         norm_name lower ` set db_payload \<inter> norm_name lower ` set locals"
      unfolding ns using r(5) .
    have e: "\<forall>x\<in>set ex. \<exists>p src loc. req_json (fst x) = JObj p
          \<and> norm_name lower (JObj p) \<in> norm_name lower ` set db_payload \<inter> norm_name lower ` set locals
          \<and> JObj src = last (filter (\<lambda>db. norm_name lower db = norm_name lower (JObj p)) db_payload)
          \<and> JObj loc = last (filter (\<lambda>db. norm_name lower db = norm_name lower (JObj p)) locals)
          \<and> map_of p =
               (map_of src)(''password'' \<mapsto> field_or_null loc ''password'',
                            ''port'' \<mapsto> field_or_null loc ''port'',
                            ''host'' \<mapsto> field_or_null loc ''host'',
                            ''user'' \<mapsto> field_or_null loc ''user'')"
    proof
      fix x assume "x \<in> set ex"
      then have "req_json (fst x) \<in> set (map (\<lambda>x. req_json (fst x)) ex)" by simp
      then obtain n where n: "n \<in> set names" "req_json (fst x) = JObj (pl n)"
        unfolding b by auto
      from each n(1) obtain src loc where sl: "last_named lower n db_payload = Some (JObj src)"
          "last_named lower n locals = Some (JObj loc)"
          "map_of (pl n) =
               (map_of src)(''password'' \<mapsto> field_or_null loc ''password'',
                            ''port'' \<mapsto> field_or_null loc ''port'',
                            ''host'' \<mapsto> field_or_null loc ''host'',
                            ''user'' \<mapsto> field_or_null loc ''user'')"
        by meson
      have 0: "norm_name lower (JObj (pl n)) \<in> norm_name lower ` set db_payload \<inter> norm_name lower ` set locals"
        using nn[OF n(1)] n(1) r(5) by simp
      have 1: "JObj src = last (filter (\<lambda>db. norm_name lower db = norm_name lower (JObj (pl n))) db_payload)"
        using last_named_last[OF sl(1)] nn[OF n(1)] by simp
      have 2: "JObj loc = last (filter (\<lambda>db. norm_name lower db = norm_name lower (JObj (pl n))) locals)"
        using last_named_last[OF sl(2)] nn[OF n(1)] by simp
      show "\<exists>p src loc. req_json (fst x) = JObj p
          \<and> norm_name lower (JObj p) \<in> norm_name lower ` set db_payload \<inter> norm_name lower ` set locals
          \<and> JObj src = last (filter (\<lambda>db. norm_name lower db = norm_name lower (JObj p)) db_payload)
          \<and> JObj loc = last (filter (\<lambda>db. norm_name lower db = norm_name lower (JObj p)) locals)
          \<and> map_of p =
               (map_of src)(''password'' \<mapsto> field_or_null loc ''password'',
                            ''port'' \<mapsto> field_or_null loc ''port'',
                            ''host'' \<mapsto> field_or_null loc ''host'',
                            ''user'' \<mapsto> field_or_null loc ''user'')"
        apply (rule exI[of _ "pl n"], rule exI[of _ src], rule exI[of _ loc])
        using n(2) 0 1 2 sl(3) by (intro conjI)
    qed
    show ?thesis
      apply (rule exI[of _ w'], rule exI[of _ ex])
      using r(1,2) d c e by (intro conjI)
  qed
qed

lemma demo_last_beta_source:
  "last (filter (\<lambda>db. norm_name ascii_lower db = ''beta'') demo_sources) =
     JObj [(''name'', JStr ''BETA''), (''type'', JStr ''mysql'')]"
  by (simp add: demo_sources_def lower_examples)

text \<open>
  The source lists beta before BETA: a payload named beta is sent, it is the only one of
  that name, and it has the \<open>type\<close> of the second record.
\<close>

theorem duplicate_names_keep_last_record_witness:
  "\<exists>w'. sync_connections rev ascii_lower demo_sources demo_sync_config (new_world []) = (Inr (), w')
      \<and> distinct (map (\<lambda>x. norm_name ascii_lower (req_json (fst x))) (exchanges w'))
      \<and> (\<exists>x\<in>set (exchanges w'). norm_name ascii_lower (req_json (fst x)) = ''beta'')
      \<and> (\<forall>x\<in>set (exchanges w'). norm_name ascii_lower (req_json (fst x)) = ''beta'' \<longrightarrow>
             py_getitem (req_json (fst x)) ''type'' = Inr (JStr ''mysql''))"
proof -
  have 1: "\<forall>db\<in>set demo_sources. named db" by (simp add: demo_sources_def)
  have 2: "py_get demo_sync_config ''databases'' (JArr []) = Inr (JArr demo_locals)"
    by (simp add: demo_sync_config_def demo_config_def)
  have 3: "\<forall>db\<in>set demo_locals. named db" by (simp add: demo_locals_def)
  have 4: "py_getitem demo_sync_config ''destination'' = Inr (JObj demo_destination)"
    by (simp add: demo_sync_config_def demo_config_def)
  have 5: "map_of demo_destination ''url'' = Some (JStr ''https://dst/'')"
    by (simp add: demo_destination_def)
  have 6: "\<forall>xs::string list. distinct xs \<longrightarrow> set (rev xs) = set xs \<and> distinct (rev xs)"
    by simp
  from duplicate_names_keep_last_record[OF 1 2 3 4 5 6, of ascii_lower "new_world []"]
  show ?thesis
  proof (elim exE conjE)
    fix w' ex
    assume r: "sync_connections rev ascii_lower demo_sources demo_sync_config (new_world []) =
        (Inr (), w')"
      "exchanges w' = exchanges (new_world []) @ ex"
      "distinct (map (\<lambda>x. norm_name ascii_lower (req_json (fst x))) ex)"
      "set (map (\<lambda>x. norm_name ascii_lower (req_json (fst x))) ex) =
         norm_name ascii_lower ` set demo_sources \<inter> norm_name ascii_lower ` set demo_locals"
    assume e: "\<forall>x\<in>set ex. \<exists>p src loc. req_json (fst x) = JObj p
          \<and> norm_name ascii_lower (JObj p) \<in>
              norm_name ascii_lower ` set demo_sources \<inter> norm_name ascii_lower ` set demo_locals
          \<and> JObj src =
              last (filter (\<lambda>db. norm_name ascii_lower db = norm_name ascii_lower (JObj p))
                      demo_sources)
          \<and> JObj loc =
              last (filter (\<lambda>db. norm_name ascii_lower db = norm_name ascii_lower (JObj p))
                      demo_locals)
          \<and> map_of p =
               (map_of src)(''password'' \<mapsto> field_or_null loc ''password'',
                            ''port'' \<mapsto> field_or_null loc ''port'',
                            ''host'' \<mapsto> field_or_null loc ''host'',
                            ''user'' \<mapsto> field_or_null loc ''user'')"
    have ex: "exchanges w' = ex" using r(2) by (simp add: new_world_def)
    have "''beta'' \<in> set (map (\<lambda>x. norm_name ascii_lower (req_json (fst x))) ex)"
      unfolding r(4) demo_names by simp
    then have sent: "\<exists>x\<in>set ex. norm_name ascii_lower (req_json (fst x)) = ''beta''"
      by (force simp: image_iff)
    have last: "py_getitem (req_json (fst x)) ''type'' = Inr (JStr ''mysql'')"
      if x: "x \<in> set ex" and b: "norm_name ascii_lower (req_json (fst x)) = ''beta''" for x
    proof -
      from e x obtain p src loc where p: "req_json (fst x) = JObj p"
        "JObj src =
           last (filter (\<lambda>db. norm_name ascii_lower db = norm_name ascii_lower (JObj p))
                   demo_sources)"
        "map_of p =
               (map_of src)(''password'' \<mapsto> field_or_null loc ''password'',
                            ''port'' \<mapsto> field_or_null loc ''port'',
                            ''host'' \<mapsto> field_or_null loc ''host'',
                            ''user'' \<mapsto> field_or_null loc ''user'')"
        by meson
      have "norm_name ascii_lower (JObj p) = ''beta''" using b p(1) by simp
      then have "JObj src = JObj [(''name'', JStr ''BETA''), (''type'', JStr ''mysql'')]"
        using p(2) demo_last_beta_source by simp
      then have "map_of src ''type'' = Some (JStr ''mysql'')" by auto
      then have "map_of p ''type'' = Some (JStr ''mysql'')" unfolding p(3) by simp
      then show ?thesis by (simp add: p(1))
    qed
    have "sync_connections rev ascii_lower demo_sources demo_sync_config (new_world []) =
        (Inr (), w')
      \<and> distinct (map (\<lambda>x. norm_name ascii_lower (req_json (fst x))) (exchanges w'))
      \<and> (\<exists>x\<in>set (exchanges w'). norm_name ascii_lower (req_json (fst x)) = ''beta'')
      \<and> (\<forall>x\<in>set (exchanges w'). norm_name ascii_lower (req_json (fst x)) = ''beta'' \<longrightarrow>
             py_getitem (req_json (fst x)) ''type'' = Inr (JStr ''mysql''))"
      unfolding ex using r(1,3) sent last by (intro conjI ballI impI)
    then show ?thesis by (intro exI)
  qed
qed

section \<open>The record loops: properties\<close>

lemma destination_url:
  assumes "py_getitem config ''destination'' = Inr (JObj dst)" and "map_of dst ''url'' = Some base"
  shows "ebind (py_getitem config ''destination'') (\<lambda>dst. py_getitem dst ''url'') = Inr base"
    and "\<exists>h. prepare_headers config ''destination'' = Inr h"
proof -
  show "ebind (py_getitem config ''destination'') (\<lambda>dst. py_getitem dst ''url'') = Inr base"
    using assms by (simp add: ebind_def)
  obtain kvs where "config = JObj kvs" "map_of kvs ''destination'' = Some (JObj dst)"
    using assms(1) by (cases config) (auto split: option.splits)
  then show "\<exists>h. prepare_headers config ''destination'' = Inr h"
    using prepare_headers_section by simp
qed

lemma source_url:
  assumes "py_getitem config ''source'' = Inr (JObj src)" and "map_of src ''url'' = Some base"
  shows "ebind (py_getitem config ''source'') (\<lambda>src. py_getitem src ''url'') = Inr base"
    and "\<exists>h. prepare_headers config ''source'' = Inr h"
proof -
  show "ebind (py_getitem config ''source'') (\<lambda>src. py_getitem src ''url'') = Inr base"
    using assms by (simp add: ebind_def)
  obtain kvs where "config = JObj kvs" "map_of kvs ''source'' = Some (JObj src)"
    using assms(1) by (cases config) (auto split: option.splits)
  then show "\<exists>h. prepare_headers config ''source'' = Inr h"
    using prepare_headers_section by simp
qed

lemma has_name_getitem: "has_name a \<Longrightarrow> py_getitem a ''name'' = Inr (audience_name a)"
  by (cases a) auto

lemma has_id_getitem: "has_id t \<Longrightarrow> py_getitem t ''id'' = Inr (template_id t)"
  by (cases t) auto

lemma create_audience_eq:
  assumes "py_getitem config ''destination'' = Inr (JObj dst)" and "map_of dst ''url'' = Some base"
    and "prepare_headers config ''destination'' = Inr h" and "has_name a"
  shows "create_audience config a w =
     (Inr (if truthy (returned (responses w (length (exchanges w))))
           then returned (responses w (length (exchanges w))) else JNull),
      w\<lparr>exchanges := exchanges w @
            [(\<lparr>req_method = POST, req_url = get_endpoint base Audiences, req_headers = h,
               req_json = a, req_params = None\<rparr>, responses w (length (exchanges w)))],
        printed := printed w @ transport_notices (responses w (length (exchanges w))) @
            [if truthy (returned (responses w (length (exchanges w))))
             then AudienceCreated (audience_name a)
             else AudienceFailed (audience_name a) (returned (responses w (length (exchanges w))))]\<rparr>)"
  using destination_url(1)[OF assms(1,2)] assms(3) has_name_getitem[OF assms(4)]
  by (simp add: create_audience_def send_request_eq print_def)

lemma create_template_eq:
  assumes "py_getitem config ''destination'' = Inr (JObj dst)" and "map_of dst ''url'' = Some base"
    and "prepare_headers config ''destination'' = Inr h"
  shows "create_template config d w =
     (Inr (if truthy (returned (responses w (length (exchanges w))))
           then returned (responses w (length (exchanges w))) else JNull),
      w\<lparr>exchanges := exchanges w @
            [(\<lparr>req_method = POST, req_url = get_endpoint base Templates, req_headers = h,
               req_json = d, req_params = None\<rparr>, responses w (length (exchanges w)))],
        printed := printed w @ transport_notices (responses w (length (exchanges w))) @
            [if truthy (returned (responses w (length (exchanges w))))
             then TemplateCreated else TemplateFailed]\<rparr>)"
  using destination_url(1)[OF assms(1,2)] assms(3)
  by (simp add: create_template_def send_request_eq print_def)

lemma fetch_content_eq:
  assumes "py_getitem config ''source'' = Inr (JObj src)" and "map_of src ''url'' = Some base"
    and "prepare_headers config ''source'' = Inr h"
  shows "fetch_content config tid w =
     (Inr (returned (responses w (length (exchanges w)))),
      w\<lparr>exchanges := exchanges w @
            [(\<lparr>req_method = GET, req_url = detail_url base tid, req_headers = h,
               req_json = JNull, req_params = None\<rparr>, responses w (length (exchanges w)))],
        printed := printed w @ transport_notices (responses w (length (exchanges w)))\<rparr>)"
  using source_url(1)[OF assms(1,2)] assms(3)
  by (simp add: fetch_content_def send_request_eq detail_url_def)

lemma main_audiences_loop_spec:
  assumes "py_getitem config ''destination'' = Inr (JObj dst)" and "map_of dst ''url'' = Some base"
    and "\<forall>a\<in>set audiences. has_name a"
  shows "\<exists>w' ex. main_audiences_loop config audiences w = (Inr (), w')
     \<and> exchanges w' = exchanges w @ ex
     \<and> responses w' = responses w
     \<and> map (\<lambda>x. req_json (fst x)) ex = audiences
     \<and> (\<forall>x\<in>set ex. req_method (fst x) = POST \<and> req_url (fst x) = get_endpoint base Audiences)
     \<and> map snd ex = map (\<lambda>i. responses w (length (exchanges w) + i)) [0..<length audiences]
     \<and> printed w' = printed w @ concat (map2 audience_lines audiences ex)"
  using assms(3)
proof (induction audiences arbitrary: w)
  case Nil
  then show ?case by simp
next
  case (Cons a as)
  obtain h where h: "prepare_headers config ''destination'' = Inr h"
    using destination_url(2)[OF assms(1,2)] by blast
  let ?out = "responses w (length (exchanges w))"
  let ?x = "(\<lparr>req_method = POST, req_url = get_endpoint base Audiences, req_headers = h,
               req_json = a, req_params = None\<rparr>, ?out)"
  let ?w0 = "print (MigratingAudience (audience_name a)) w"
  let ?w1 = "w\<lparr>exchanges := exchanges w @ [?x],
        printed := printed w @ audience_lines a ?x\<rparr>"
  have a: "has_name a" using Cons.prems by simp
  have c: "create_audience config a ?w0 =
      (Inr (if truthy (returned ?out) then returned ?out else JNull), ?w1)"
    using create_audience_eq[OF assms(1,2) h a, of ?w0]
    by (simp add: print_def audience_lines_def)
  have step: "main_audiences_loop config (a # as) w = main_audiences_loop config as ?w1"
    using has_name_getitem[OF a] c by simp
  from Cons.IH[of ?w1] Cons.prems obtain w' ex where r:
    "main_audiences_loop config as ?w1 = (Inr (), w')"
    "exchanges w' = exchanges ?w1 @ ex" "responses w' = responses ?w1"
    "map (\<lambda>x. req_json (fst x)) ex = as"
    "\<forall>x\<in>set ex. req_method (fst x) = POST \<and> req_url (fst x) = get_endpoint base Audiences"
    "map snd ex = map (\<lambda>i. responses ?w1 (length (exchanges ?w1) + i)) [0..<length as]"
    "printed w' = printed ?w1 @ concat (map2 audience_lines as ex)"
    by auto
  have o: "map snd (?x # ex) =
      map (\<lambda>i. responses w (length (exchanges w) + i)) [0..<length (a # as)]"
    using r(6) by (simp add: upt_conv_Cons map_Suc_upt[symmetric] del: upt_Suc)
  have "main_audiences_loop config (a # as) w = (Inr (), w')
     \<and> exchanges w' = exchanges w @ (?x # ex)
     \<and> responses w' = responses w
     \<and> map (\<lambda>x. req_json (fst x)) (?x # ex) = a # as
     \<and> (\<forall>x\<in>set (?x # ex). req_method (fst x) = POST
           \<and> req_url (fst x) = get_endpoint base Audiences)
     \<and> map snd (?x # ex) =
         map (\<lambda>i. responses w (length (exchanges w) + i)) [0..<length (a # as)]
     \<and> printed w' = printed w @ concat (map2 audience_lines (a # as) (?x # ex))"
    using step r(1-5,7) o by simp
  then show ?case by (intro exI)
qed

lemma filter_transport_notices [simp]:
  "filter is_transport_notice (transport_notices out) = transport_notices out"
  "filter is_migrating (transport_notices out) = []"
  "filter is_template_result (transport_notices out) = []"
  by (cases out; simp)+

lemma main_templates_loop_spec:
  assumes "py_getitem config ''source'' = Inr (JObj src)" and "map_of src ''url'' = Some sbase"
    and "py_getitem config ''destination'' = Inr (JObj dst)" and "map_of dst ''url'' = Some dbase"
    and "\<forall>t\<in>set templates. has_id t"
  shows "\<exists>w' ex pr. main_templates_loop config templates w = (Inr (), w')
     \<and> exchanges w' = exchanges w @ ex \<and> printed w' = printed w @ pr
     \<and> responses w' = responses w
     \<and> map (\<lambda>x. req_url (fst x)) (filter is_get ex) =
         map (\<lambda>t. detail_url sbase (template_id t)) templates
     \<and> map (\<lambda>x. req_json (fst x)) (filter is_post ex) =
         filter truthy (map (\<lambda>x. returned (snd x)) (filter is_get ex))
     \<and> (\<forall>x\<in>set (filter is_post ex). req_url (fst x) = get_endpoint dbase Templates)
     \<and> filter is_transport_notice pr = concat (map (\<lambda>x. transport_notices (snd x)) ex)
     \<and> filter is_migrating pr = map (\<lambda>t. MigratingTemplate (template_id t)) templates
     \<and> filter is_template_result pr =
         map (\<lambda>x. if truthy (returned (snd x)) then TemplateCreated else TemplateFailed)
           (filter is_post ex)"
  using assms(5)
proof (induction templates arbitrary: w)
  case Nil
  then show ?case by simp
next
  case (Cons t ts)
  obtain hs where hs: "prepare_headers config ''source'' = Inr hs"
    using source_url(2)[OF assms(1,2)] by blast
  obtain hd where hd: "prepare_headers config ''destination'' = Inr hd"
    using destination_url(2)[OF assms(3,4)] by blast
  have t: "has_id t" using Cons.prems by simp
  let ?id = "template_id t"
  let ?o1 = "responses w (length (exchanges w))"
  let ?g = "(\<lparr>req_method = GET, req_url = detail_url sbase ?id, req_headers = hs,
               req_json = JNull, req_params = None\<rparr>, ?o1)"
  let ?w1 = "w\<lparr>exchanges := exchanges w @ [?g],
        printed := printed w @ MigratingTemplate ?id # transport_notices ?o1\<rparr>"
  have f: "fetch_content config ?id (print (MigratingTemplate ?id) w) = (Inr (returned ?o1), ?w1)"
    using fetch_content_eq[OF assms(1,2) hs, of ?id "print (MigratingTemplate ?id) w"]
    by (simp add: print_def)
  show ?case
  proof (cases "truthy (returned ?o1)")
    case False
    have step: "main_templates_loop config (t # ts) w = main_templates_loop config ts ?w1"
      using has_id_getitem[OF t] f False by simp
    from Cons.IH[of ?w1] Cons.prems obtain w' ex pr where r:
      "main_templates_loop config ts ?w1 = (Inr (), w')"
      "exchanges w' = exchanges ?w1 @ ex" "printed w' = printed ?w1 @ pr"
      "responses w' = responses ?w1"
      "map (\<lambda>x. req_url (fst x)) (filter is_get ex) =
         map (\<lambda>t. detail_url sbase (template_id t)) ts"
      "map (\<lambda>x. req_json (fst x)) (filter is_post ex) =
         filter truthy (map (\<lambda>x. returned (snd x)) (filter is_get ex))"
      "\<forall>x\<in>set (filter is_post ex). req_url (fst x) = get_endpoint dbase Templates"
      "filter is_transport_notice pr = concat (map (\<lambda>x. transport_notices (snd x)) ex)"
      "filter is_migrating pr = map (\<lambda>t. MigratingTemplate (template_id t)) ts"
      "filter is_template_result pr =
         map (\<lambda>x. if truthy (returned (snd x)) then TemplateCreated else TemplateFailed)
           (filter is_post ex)"
      by auto
    let ?ex = "?g # ex" and ?pr = "MigratingTemplate ?id # transport_notices ?o1 @ pr"
    have "main_templates_loop config (t # ts) w = (Inr (), w')
     \<and> exchanges w' = exchanges w @ ?ex \<and> printed w' = printed w @ ?pr
     \<and> responses w' = responses w
     \<and> map (\<lambda>x. req_url (fst x)) (filter is_get ?ex) =
         map (\<lambda>t. detail_url sbase (template_id t)) (t # ts)
     \<and> map (\<lambda>x. req_json (fst x)) (filter is_post ?ex) =
         filter truthy (map (\<lambda>x. returned (snd x)) (filter is_get ?ex))
     \<and> (\<forall>x\<in>set (filter is_post ?ex). req_url (fst x) = get_endpoint dbase Templates)
     \<and> filter is_transport_notice ?pr = concat (map (\<lambda>x. transport_notices (snd x)) ?ex)
     \<and> filter is_migrating ?pr = map (\<lambda>t. MigratingTemplate (template_id t)) (t # ts)
     \<and> filter is_template_result ?pr =
         map (\<lambda>x. if truthy (returned (snd x)) then TemplateCreated else TemplateFailed)
           (filter is_post ?ex)"
      using step r False by (simp add: is_get_def is_post_def)
    then show ?thesis by (intro exI)
  next
    case True
    let ?o2 = "responses w (Suc (length (exchanges w)))"
    let ?p = "(\<lparr>req_method = POST, req_url = get_endpoint dbase Templates, req_headers = hd,
               req_json = returned ?o1, req_params = None\<rparr>, ?o2)"
    let ?res = "if truthy (returned ?o2) then TemplateCreated else TemplateFailed"
    let ?w2 = "w\<lparr>exchanges := exchanges w @ [?g, ?p],
        printed := printed w @ MigratingTemplate ?id # transport_notices ?o1 @
                   transport_notices ?o2 @ [?res]\<rparr>"
    have c: "create_template config (returned ?o1) ?w1 =
        (Inr (if truthy (returned ?o2) then returned ?o2 else JNull), ?w2)"
      using create_template_eq[OF assms(3,4) hd, of "returned ?o1" ?w1] by simp
    have step: "main_templates_loop config (t # ts) w = main_templates_loop config ts ?w2"
      using has_id_getitem[OF t] f True c by simp
    from Cons.IH[of ?w2] Cons.prems obtain w' ex pr where r:
      "main_templates_loop config ts ?w2 = (Inr (), w')"
      "exchanges w' = exchanges ?w2 @ ex" "printed w' = printed ?w2 @ pr"
      "responses w' = responses ?w2"
      "map (\<lambda>x. req_url (fst x)) (filter is_get ex) =
         map (\<lambda>t. detail_url sbase (template_id t)) ts"
      "map (\<lambda>x. req_json (fst x)) (filter is_post ex) =
         filter truthy (map (\<lambda>x. returned (snd x)) (filter is_get ex))"
      "\<forall>x\<in>set (filter is_post ex). req_url (fst x) = get_endpoint dbase Templates"
      "filter is_transport_notice pr = concat (map (\<lambda>x. transport_notices (snd x)) ex)"
      "filter is_migrating pr = map (\<lambda>t. MigratingTemplate (template_id t)) ts"
      "filter is_template_result pr =
         map (\<lambda>x. if truthy (returned (snd x)) then TemplateCreated else TemplateFailed)
           (filter is_post ex)"
      by auto
    let ?ex = "?g # ?p # ex"
    let ?pr = "MigratingTemplate ?id # transport_notices ?o1 @ transport_notices ?o2 @ ?res # pr"
    have "main_templates_loop config (t # ts) w = (Inr (), w')
     \<and> exchanges w' = exchanges w @ ?ex \<and> printed w' = printed w @ ?pr
     \<and> responses w' = responses w
     \<and> map (\<lambda>x. req_url (fst x)) (filter is_get ?ex) =
         map (\<lambda>t. detail_url sbase (template_id t)) (t # ts)
     \<and> map (\<lambda>x. req_json (fst x)) (filter is_post ?ex) =
         filter truthy (map (\<lambda>x. returned (snd x)) (filter is_get ?ex))
     \<and> (\<forall>x\<in>set (filter is_post ?ex). req_url (fst x) = get_endpoint dbase Templates)
     \<and> filter is_transport_notice ?pr = concat (map (\<lambda>x. transport_notices (snd x)) ?ex)
     \<and> filter is_migrating ?pr = map (\<lambda>t. MigratingTemplate (template_id t)) (t # ts)
     \<and> filter is_template_result ?pr =
         map (\<lambda>x. if truthy (returned (snd x)) then TemplateCreated else TemplateFailed)
           (filter is_post ?ex)"
      using step r True by (simp add: is_get_def is_post_def)
    then show ?thesis by (intro exI)
  qed
qed

text \<open>
  Claim C3, as amended. For a listing of template records that carry an \<open>id\<close>, the
  templates loop ends normally; it makes one detail request for each record, in order, and
  one create request for exactly the records whose detail request returned a truthy value,
  with that value as body. Every exchange that met a transport or decoding error has its
  failure line printed, and the loop goes on with the next record.
\<close>

theorem templates_created_for_fetched_details:
  assumes "py_getitem config ''source'' = Inr (JObj src)" and "map_of src ''url'' = Some sbase"
    and "py_getitem config ''destination'' = Inr (JObj dst)" and "map_of dst ''url'' = Some dbase"
    and "\<forall>t\<in>set templates. has_id t"
  shows "\<exists>w' ex pr. main_templates_loop config templates w = (Inr (), w')
     \<and> exchanges w' = exchanges w @ ex \<and> printed w' = printed w @ pr
     \<and> map (\<lambda>x. req_url (fst x)) (filter is_get ex) =
         map (\<lambda>t. detail_url sbase (template_id t)) templates
     \<and> map (\<lambda>x. req_json (fst x)) (filter is_post ex) =
         filter truthy (map (\<lambda>x. returned (snd x)) (filter is_get ex))
     \<and> (\<forall>x\<in>set (filter is_post ex). req_url (fst x) = get_endpoint dbase Templates)
     \<and> filter is_transport_notice pr = concat (map (\<lambda>x. transport_notices (snd x)) ex)"
proof -
  from main_templates_loop_spec[OF assms, of w]
  show ?thesis
  proof (elim exE conjE)
    fix w' ex pr
    assume "main_templates_loop config templates w = (Inr (), w')"
      "exchanges w' = exchanges w @ ex" "printed w' = printed w @ pr"
      "map (\<lambda>x. req_url (fst x)) (filter is_get ex) =
         map (\<lambda>t. detail_url sbase (template_id t)) templates"
      "map (\<lambda>x. req_json (fst x)) (filter is_post ex) =
         filter truthy (map (\<lambda>x. returned (snd x)) (filter is_get ex))"
      "\<forall>x\<in>set (filter is_post ex). req_url (fst x) = get_endpoint dbase Templates"
      "filter is_transport_notice pr = concat (map (\<lambda>x. transport_notices (snd x)) ex)"
    then have "main_templates_loop config templates w = (Inr (), w')
     \<and> exchanges w' = exchanges w @ ex \<and> printed w' = printed w @ pr
     \<and> map (\<lambda>x. req_url (fst x)) (filter is_get ex) =
         map (\<lambda>t. detail_url sbase (template_id t)) templates
     \<and> map (\<lambda>x. req_json (fst x)) (filter is_post ex) =
         filter truthy (map (\<lambda>x. returned (snd x)) (filter is_get ex))
     \<and> (\<forall>x\<in>set (filter is_post ex). req_url (fst x) = get_endpoint dbase Templates)
     \<and> filter is_transport_notice pr = concat (map (\<lambda>x. transport_notices (snd x)) ex)"
      by (intro conjI)
    then show ?thesis by (intro exI)
  qed
qed

lemma demo_config_sections:
  "py_getitem (demo_config extra) ''source'' = Inr (JObj demo_source)"
  "map_of demo_source ''url'' = Some (JStr ''https://src/'')"
  "py_getitem (demo_config extra) ''destination'' = Inr (JObj demo_destination)"
  "map_of demo_destination ''url'' = Some (JStr ''https://dst/'')"
  by (simp_all add: demo_config_def demo_source_def demo_destination_def)

lemma three_templates_evaluated:
  "\<exists>w'. main_templates_loop (demo_config []) three_templates (new_world three_templates_run) =
          (Inr (), w')
     \<and> map (\<lambda>x. req_json (fst x)) (filter is_post (exchanges w')) =
         [JObj [(''id'', JInt 1), (''body'', JStr ''one'')],
          JObj [(''id'', JInt 3), (''body'', JStr ''three'')]]
     \<and> printed w' =
         [MigratingTemplate (JInt 1), TemplateCreated,
          MigratingTemplate (JInt 2), HttpErrorNotice ''500'',
          MigratingTemplate (JInt 3), NotDecodedNotice, TemplateFailed]"
  by (simp add: three_templates_def three_templates_run_def demo_config_def demo_source_def
      demo_destination_def new_world_def script_def fetch_content_def create_template_def
      prepare_headers_def ebind_def send_request_eq print_def is_post_def)

text \<open>
  Three ids, the detail of the second one fails: two creates, for the first and the third
  record, a failure line for the second, and the loop reaches the third.
\<close>

theorem templates_created_for_fetched_details_witness:
  "\<exists>w'. main_templates_loop (demo_config []) three_templates (new_world three_templates_run) =
          (Inr (), w')
     \<and> map (\<lambda>x. req_json (fst x)) (filter is_post (exchanges w')) =
         [JObj [(''id'', JInt 1), (''body'', JStr ''one'')],
          JObj [(''id'', JInt 3), (''body'', JStr ''three'')]]
     \<and> map (\<lambda>x. req_json (fst x)) (filter is_post (exchanges w')) =
         filter truthy (map (\<lambda>x. returned (snd x)) (filter is_get (exchanges w')))
     \<and> filter is_transport_notice (printed w') = [HttpErrorNotice ''500'', NotDecodedNotice]"
proof -
  have 5: "\<forall>t\<in>set three_templates. has_id t" by (simp add: three_templates_def)
  from three_templates_evaluated obtain v where v:
    "main_templates_loop (demo_config []) three_templates (new_world three_templates_run) =
          (Inr (), v)"
    "map (\<lambda>x. req_json (fst x)) (filter is_post (exchanges v)) =
         [JObj [(''id'', JInt 1), (''body'', JStr ''one'')],
          JObj [(''id'', JInt 3), (''body'', JStr ''three'')]]"
    "printed v =
         [MigratingTemplate (JInt 1), TemplateCreated,
          MigratingTemplate (JInt 2), HttpErrorNotice ''500'',
          MigratingTemplate (JInt 3), NotDecodedNotice, TemplateFailed]"
    by (elim exE conjE)
  from templates_created_for_fetched_details[OF demo_config_sections 5,
      of "[]" "new_world three_templates_run"]
  show ?thesis
  proof (elim exE conjE)
    fix w' ex pr
    assume r: "main_templates_loop (demo_config []) three_templates
        (new_world three_templates_run) = (Inr (), w')"
      "exchanges w' = exchanges (new_world three_templates_run) @ ex"
      "map (\<lambda>x. req_json (fst x)) (filter is_post ex) =
         filter truthy (map (\<lambda>x. returned (snd x)) (filter is_get ex))"
    have same: "w' = v" using r(1) v(1) by simp
    have ex: "exchanges v = ex" using r(2) same by (simp add: new_world_def)
    have "main_templates_loop (demo_config []) three_templates (new_world three_templates_run) =
          (Inr (), v)
     \<and> map (\<lambda>x. req_json (fst x)) (filter is_post (exchanges v)) =
         [JObj [(''id'', JInt 1), (''body'', JStr ''one'')],
          JObj [(''id'', JInt 3), (''body'', JStr ''three'')]]
     \<and> map (\<lambda>x. req_json (fst x)) (filter is_post (exchanges v)) =
         filter truthy (map (\<lambda>x. returned (snd x)) (filter is_get (exchanges v)))
     \<and> filter is_transport_notice (printed v) = [HttpErrorNotice ''500'', NotDecodedNotice]"
      using v r(3) ex by simp
    then show ?thesis by (intro exI)
  qed
qed

text \<open>
  Claim C3, as stated, fails: the detail request of the one record is answered by the body
  \<open>null\<close>, so \<open>fetch_content\<close> returns \<open>None\<close>; there is one exchange only (no create),
  and the only line printed is the one that announces the record: no failure line.
\<close>

theorem null_detail_is_skipped_without_notice:
  "fst (fetch_content (demo_config []) (JInt 1) (new_world [Decoded JNull])) = Inr JNull
   \<and> fst (main_templates_loop (demo_config []) [JObj [(''id'', JInt 1)]]
            (new_world [Decoded JNull])) = Inr ()
   \<and> map snd (exchanges (snd (main_templates_loop (demo_config []) [JObj [(''id'', JInt 1)]]
            (new_world [Decoded JNull])))) = [Decoded JNull]
   \<and> printed (snd (main_templates_loop (demo_config []) [JObj [(''id'', JInt 1)]]
            (new_world [Decoded JNull]))) = [MigratingTemplate (JInt 1)]"
  by (simp add: demo_config_def demo_source_def demo_destination_def new_world_def script_def
      fetch_content_def prepare_headers_def ebind_def send_request_eq print_def)

text \<open>
  Claim C5, as amended. For audience records that carry a \<open>name\<close> and template records
  that carry an \<open>id\<close>, no outcome of a creation or of a detail fetch raises: both loops
  end normally whatever the transport delivers. The audiences loop sends one create request
  for each record, in order, and prints for each the line that announces it, the failure
  line of the transport if the request failed, and the created or failed line. The
  templates loop announces every record, prints the failure line of every failed exchange
  and a created or failed line for every create request.
\<close>

theorem record_failures_do_not_stop_a_flow:
  assumes "py_getitem config ''source'' = Inr (JObj src)" and "map_of src ''url'' = Some sbase"
    and "py_getitem config ''destination'' = Inr (JObj dst)" and "map_of dst ''url'' = Some dbase"
    and "\<forall>a\<in>set audiences. has_name a"
    and "\<forall>t\<in>set templates. has_id t"
  shows "(\<exists>w' ex. main_audiences_loop config audiences w = (Inr (), w')
           \<and> exchanges w' = exchanges w @ ex
           \<and> map (\<lambda>x. req_json (fst x)) ex = audiences
           \<and> printed w' = printed w @ concat (map2 audience_lines audiences ex))
     \<and> (\<exists>w' ex pr. main_templates_loop config templates w = (Inr (), w')
           \<and> exchanges w' = exchanges w @ ex \<and> printed w' = printed w @ pr
           \<and> filter is_migrating pr = map (\<lambda>t. MigratingTemplate (template_id t)) templates
           \<and> filter is_transport_notice pr =
               concat (map (\<lambda>x. transport_notices (snd x)) ex)
           \<and> filter is_template_result pr =
               map (\<lambda>x. if truthy (returned (snd x)) then TemplateCreated else TemplateFailed)
                 (filter is_post ex))"
proof
  from main_audiences_loop_spec[OF assms(3,4,5), of w]
  show "\<exists>w' ex. main_audiences_loop config audiences w = (Inr (), w')
           \<and> exchanges w' = exchanges w @ ex
           \<and> map (\<lambda>x. req_json (fst x)) ex = audiences
           \<and> printed w' = printed w @ concat (map2 audience_lines audiences ex)"
  proof (elim exE conjE)
    fix w' ex
    assume "main_audiences_loop config audiences w = (Inr (), w')"
      "exchanges w' = exchanges w @ ex"
      "map (\<lambda>x. req_json (fst x)) ex = audiences"
      "printed w' = printed w @ concat (map2 audience_lines audiences ex)"
    then have "main_audiences_loop config audiences w = (Inr (), w')
           \<and> exchanges w' = exchanges w @ ex
           \<and> map (\<lambda>x. req_json (fst x)) ex = audiences
           \<and> printed w' = printed w @ concat (map2 audience_lines audiences ex)"
      by (intro conjI)
    then show ?thesis by (intro exI)
  qed
next
  from main_templates_loop_spec[OF assms(1,2,3,4,6), of w]
  show "\<exists>w' ex pr. main_templates_loop config templates w = (Inr (), w')
           \<and> exchanges w' = exchanges w @ ex \<and> printed w' = printed w @ pr
           \<and> filter is_migrating pr = map (\<lambda>t. MigratingTemplate (template_id t)) templates
           \<and> filter is_transport_notice pr =
               concat (map (\<lambda>x. transport_notices (snd x)) ex)
           \<and> filter is_template_result pr =
               map (\<lambda>x. if truthy (returned (snd x)) then TemplateCreated else TemplateFailed)
                 (filter is_post ex)"
  proof (elim exE conjE)
    fix w' ex pr
    assume "main_templates_loop config templates w = (Inr (), w')"
      "exchanges w' = exchanges w @ ex" "printed w' = printed w @ pr"
      "filter is_migrating pr = map (\<lambda>t. MigratingTemplate (template_id t)) templates"
      "filter is_transport_notice pr = concat (map (\<lambda>x. transport_notices (snd x)) ex)"
      "filter is_template_result pr =
         map (\<lambda>x. if truthy (returned (snd x)) then TemplateCreated else TemplateFailed)
           (filter is_post ex)"
    then have "main_templates_loop config templates w = (Inr (), w')
           \<and> exchanges w' = exchanges w @ ex \<and> printed w' = printed w @ pr
           \<and> filter is_migrating pr = map (\<lambda>t. MigratingTemplate (template_id t)) templates
           \<and> filter is_transport_notice pr =
               concat (map (\<lambda>x. transport_notices (snd x)) ex)
           \<and> filter is_template_result pr =
               map (\<lambda>x. if truthy (returned (snd x)) then TemplateCreated else TemplateFailed)
                 (filter is_post ex)"
      by (intro conjI)
    then show ?thesis by (intro exI)
  qed
qed

lemma two_audiences_evaluated:
  "\<exists>w'. main_audiences_loop (demo_config []) two_audiences
            (new_world [RequestException ''down'', Decoded (JObj [(''id'', JInt 2)])]) =
          (Inr (), w')
     \<and> printed w' =
         [MigratingAudience (JStr ''A''), HttpErrorNotice ''down'',
          AudienceFailed (JStr ''A'') JNull,
          MigratingAudience (JStr ''B''), AudienceCreated (JStr ''B'')]"
  by (simp add: two_audiences_def demo_config_def demo_source_def demo_destination_def
      new_world_def script_def create_audience_def prepare_headers_def ebind_def
      send_request_eq print_def)

text \<open>
  The creation of the first audience fails and that of the second succeeds; in the
  templates run the second detail fetch and the last creation fail. Both loops end normally.
\<close>

theorem record_failures_do_not_stop_a_flow_witness:
  "(\<exists>w'. main_audiences_loop (demo_config []) two_audiences
            (new_world [RequestException ''down'', Decoded (JObj [(''id'', JInt 2)])]) =
          (Inr (), w')
      \<and> map (\<lambda>x. req_json (fst x)) (exchanges w') = two_audiences
      \<and> printed w' =
         [MigratingAudience (JStr ''A''), HttpErrorNotice ''down'',
          AudienceFailed (JStr ''A'') JNull,
          MigratingAudience (JStr ''B''), AudienceCreated (JStr ''B'')])
   \<and> (\<exists>w'. main_templates_loop (demo_config []) three_templates
            (new_world three_templates_run) = (Inr (), w')
      \<and> filter is_migrating (printed w') =
          [MigratingTemplate (JInt 1), MigratingTemplate (JInt 2), MigratingTemplate (JInt 3)])"
proof -
  let ?wa = "new_world [RequestException ''down'', Decoded (JObj [(''id'', JInt 2)])]"
  let ?wt = "new_world three_templates_run"
  have 5: "\<forall>a\<in>set two_audiences. has_name a" by (simp add: two_audiences_def)
  have 6: "\<forall>t\<in>set three_templates. has_id t" by (simp add: three_templates_def)
  from two_audiences_evaluated obtain v where v:
    "main_audiences_loop (demo_config []) two_audiences ?wa = (Inr (), v)"
    "printed v =
         [MigratingAudience (JStr ''A''), HttpErrorNotice ''down'',
          AudienceFailed (JStr ''A'') JNull,
          MigratingAudience (JStr ''B''), AudienceCreated (JStr ''B'')]"
    by (elim exE conjE)
  have a: "\<exists>w'. main_audiences_loop (demo_config []) two_audiences ?wa = (Inr (), w')
      \<and> map (\<lambda>x. req_json (fst x)) (exchanges w') = two_audiences
      \<and> printed w' =
         [MigratingAudience (JStr ''A''), HttpErrorNotice ''down'',
          AudienceFailed (JStr ''A'') JNull,
          MigratingAudience (JStr ''B''), AudienceCreated (JStr ''B'')]"
    using record_failures_do_not_stop_a_flow[OF demo_config_sections 5 6, of "[]" ?wa,
        THEN conjunct1]
  proof (elim exE conjE)
    fix w' ex
    assume r: "main_audiences_loop (demo_config []) two_audiences ?wa = (Inr (), w')"
      "exchanges w' = exchanges ?wa @ ex"
      "map (\<lambda>x. req_json (fst x)) ex = two_audiences"
    have same: "w' = v" using r(1) v(1) by simp
    have "main_audiences_loop (demo_config []) two_audiences ?wa = (Inr (), v)
      \<and> map (\<lambda>x. req_json (fst x)) (exchanges v) = two_audiences
      \<and> printed v =
         [MigratingAudience (JStr ''A''), HttpErrorNotice ''down'',
          AudienceFailed (JStr ''A'') JNull,
          MigratingAudience (JStr ''B''), AudienceCreated (JStr ''B'')]"
      using v r(2,3) same by (simp add: new_world_def)
    then show ?thesis by (intro exI)
  qed
  have t: "\<exists>w'. main_templates_loop (demo_config []) three_templates ?wt = (Inr (), w')
      \<and> filter is_migrating (printed w') =
          [MigratingTemplate (JInt 1), MigratingTemplate (JInt 2), MigratingTemplate (JInt 3)]"
    using record_failures_do_not_stop_a_flow[OF demo_config_sections 5 6, of "[]" ?wt,
        THEN conjunct2]
  proof (elim exE conjE)
    fix w' ex pr
    assume r: "main_templates_loop (demo_config []) three_templates ?wt = (Inr (), w')"
      "printed w' = printed ?wt @ pr"
      "filter is_migrating pr = map (\<lambda>t. MigratingTemplate (template_id t)) three_templates"
    have "main_templates_loop (demo_config []) three_templates ?wt = (Inr (), w')
      \<and> filter is_migrating (printed w') =
          [MigratingTemplate (JInt 1), MigratingTemplate (JInt 2), MigratingTemplate (JInt 3)]"
      using r by (simp add: new_world_def three_templates_def)
    then show ?thesis by (intro exI)
  qed
  show ?thesis using a t by (intro conjI)
qed

text \<open>
  Claim C5, as stated, fails: the first audience record has no \<open>name\<close>. The loop ends
  with a \<open>KeyError\<close> in the world it started in, so the second record is never created;
  and \<open>create_audience\<close> itself, when the creation of such a record fails, raises the
  \<open>KeyError\<close> while it formats the failure line.
\<close>

theorem record_without_name_stops_audiences_flow:
  "main_audiences_loop (demo_config []) nameless_then_named
      (new_world [Decoded (JObj [(''id'', JInt 1)]), Decoded (JObj [(''id'', JInt 2)])]) =
     (Inl (KeyError ''name''),
      new_world [Decoded (JObj [(''id'', JInt 1)]), Decoded (JObj [(''id'', JInt 2)])])
   \<and> exchanges (new_world [Decoded (JObj [(''id'', JInt 1)]), Decoded (JObj [(''id'', JInt 2)])])
       = []
   \<and> fst (create_audience (demo_config []) (JObj [(''label'', JStr ''x'')])
            (new_world [RequestException ''down''])) = Inl (KeyError ''name'')"
  by (simp add: nameless_then_named_def demo_config_def demo_source_def demo_destination_def
      new_world_def script_def create_audience_def prepare_headers_def ebind_def
      send_request_eq print_def)


end
